theory Spec2Isabelle
  imports Complex_Main
begin

section \<open>The CSG scene graph of \<open>include/csg.h\<close>\<close>

text \<open>
  The header declares the node classes (\<open>object\<close> and its subclasses), the arena
  \<open>scene\<close> that owns every node, and the free builder functions. A \<open>float\<close> is
  read as a real number here, so rounding, infinities and NaN are outside this model.
\<close>

subsection \<open>Vectors and matrices of the math library\<close>

text \<open>
  The math library (\<open>glm.h\<close>) is only included by the header. \<open>glm::vec3\<close> has three
  components, \<open>glm::vec4\<close> four, and \<open>glm::mat4\<close> is four columns of \<open>glm::vec4\<close>.
  The operations below are the ones the header applies to them, with the componentwise
  meaning the library gives them.
\<close>

type_synonym vec3 = "real \<times> real \<times> real"
type_synonym bvec3 = "bool \<times> bool \<times> bool"
type_synonym vec4 = "real \<times> real \<times> real \<times> real"
type_synonym mat4 = "vec4 \<times> vec4 \<times> vec4 \<times> vec4"

text \<open>\<open>glm::notEqual(a, b)\<close>: the componentwise comparison.\<close>

fun vec3_notEqual :: "vec3 \<Rightarrow> vec3 \<Rightarrow> bvec3" where
  "vec3_notEqual (ax, ay, az) (bx, by, bz) = (ax \<noteq> bx, ay \<noteq> by, az \<noteq> bz)"

text \<open>\<open>glm::all(b)\<close>: every component holds.\<close>

fun bvec3_all :: "bvec3 \<Rightarrow> bool" where
  "bvec3_all (bx, by, bz) = (bx \<and> by \<and> bz)"

text \<open>\<open>a / b\<close> on \<open>glm::vec3\<close>: the componentwise quotient.\<close>

fun vec3_div :: "vec3 \<Rightarrow> vec3 \<Rightarrow> vec3" where
  "vec3_div (ax, ay, az) (bx, by, bz) = (ax / bx, ay / by, az / bz)"

text \<open>\<open>-a\<close> on \<open>glm::vec3\<close>.\<close>

fun vec3_neg :: "vec3 \<Rightarrow> vec3" where
  "vec3_neg (ax, ay, az) = (- ax, - ay, - az)"

text \<open>\<open>glm::length(a)\<close>: the Euclidean norm.\<close>

fun vec3_length :: "vec3 \<Rightarrow> real" where
  "vec3_length (ax, ay, az) = sqrt (ax * ax + ay * ay + az * az)"

text \<open>
  Modelled from the spec: \<open>glm::scale\<close> and \<open>glm::translate\<close> belong to the math
  library (\<open>glm.h\<close>), which the header only includes. \<open>glm_scale v\<close> is the scaling
  matrix with diagonal \<open>v\<close>, \<open>glm_translate v\<close> the translation by \<open>v\<close> (its last
  column). \<open>glm::rotate\<close> is not given a definition: the builders that call it take it as
  the parameter \<open>glm_rotate\<close>.
\<close>

fun glm_scale :: "vec3 \<Rightarrow> mat4" where
  "glm_scale (x, y, z) =
     ((x, 0, 0, 0),
      (0, y, 0, 0),
      (0, 0, z, 0),
      (0, 0, 0, 1))"

fun glm_translate :: "vec3 \<Rightarrow> mat4" where
  "glm_translate (x, y, z) =
     ((1, 0, 0, 0),
      (0, 1, 0, 0),
      (0, 0, 1, 0),
      (x, y, z, 1))"

text \<open>
  Modelled from the spec: the product \<open>M \<cdot> p\<close> of a stored matrix with a query point,
  the point taken in homogeneous coordinates \<open>(x, y, z, 1)\<close> and the first three
  components of the product kept.
\<close>

fun mat4_mul_vec4 :: "mat4 \<Rightarrow> vec4 \<Rightarrow> vec4" where
  "mat4_mul_vec4 ((a0, a1, a2, a3), (b0, b1, b2, b3), (c0, c1, c2, c3), (d0, d1, d2, d3))
                 (x, y, z, t) =
     (a0 * x + b0 * y + c0 * z + d0 * t,
      a1 * x + b1 * y + c1 * z + d1 * t,
      a2 * x + b2 * y + c2 * z + d2 * t,
      a3 * x + b3 * y + c3 * z + d3 * t)"

fun mat4_apply :: "mat4 \<Rightarrow> vec3 \<Rightarrow> vec3" where
  "mat4_apply M (x, y, z) = (case mat4_mul_vec4 M (x, y, z, 1) of (x', y', z', t') \<Rightarrow> (x', y', z'))"

subsection \<open>Nodes, scenes and the heap\<close>

text \<open>
  An \<open>object *\<close> is an address in a heap of objects, a \<open>scene *\<close> an address in a
  list of scenes: every allocation appends, and nothing is freed while a scene lives.
  The base class \<open>object\<close> holds \<open>_scene\<close>; each subclass adds its own fields, here
  the constructors of \<open>node\<close>. The type \<open>'m\<close> stands for \<open>voxel::material_t\<close>.
\<close>

type_synonym addr = nat
type_synonym scene_ptr = nat

datatype 'm node =
    sphere_t real
  | cube_t real
  | toplevel_t addr 'm
  | union_t addr addr
  | intersection_t addr addr
  | difference_t addr addr
  | transform_t addr mat4

record 'm object =
  obj_scene :: scene_ptr
  obj_node :: "'m node"

text \<open>\<open>scene::_objects\<close> (the owned nodes) and \<open>scene::_toplevels\<close>, both in insertion order.\<close>

record scene =
  objects :: "addr list"
  toplevels :: "addr list"

record 'm world =
  heap :: "'m object list"
  scenes :: "scene list"

text \<open>
  A failed \<open>assert\<close> aborts the program. Reading through a pointer that addresses no
  object is undefined in C++; the model reports it as \<open>InvalidPointer\<close>.
\<close>

datatype error = AssertionFailed | InvalidPointer

definition deref :: "'m world \<Rightarrow> addr \<Rightarrow> 'm object option" where
  "deref w a = (if a < length (heap w) then Some (heap w ! a) else None)"

definition empty_world :: "'m world" where
  "empty_world = \<lparr>heap = [], scenes = []\<rparr>"

text \<open>\<open>scene() = default\<close>: a new scene owns nothing.\<close>

definition new_scene :: "'m world \<Rightarrow> scene_ptr \<times> 'm world" where
  "new_scene w =
     (length (scenes w), w\<lparr>scenes := scenes w @ [\<lparr>objects = [], toplevels = []\<rparr>]\<rparr>)"

text \<open>
  \<open>scene::make<T>(args...)\<close>: allocate the node with \<open>this\<close> as its scene, push the
  owning pointer on \<open>_objects\<close>, return the raw pointer.
\<close>

definition scene_make :: "'m world \<Rightarrow> scene_ptr \<Rightarrow> 'm node \<Rightarrow> error + (addr \<times> 'm world)" where
  "scene_make w s n =
     (if s < length (scenes w) then
        let r = length (heap w);
            sc = scenes w ! s
        in Inr (r, w\<lparr>heap := heap w @ [\<lparr>obj_scene = s, obj_node = n\<rparr>],
                     scenes := (scenes w)[s := sc\<lparr>objects := objects sc @ [r]\<rparr>]\<rparr>)
      else Inl InvalidPointer)"

definition sphere :: "'m world \<Rightarrow> scene_ptr \<Rightarrow> real \<Rightarrow> error + (addr \<times> 'm world)" where
  "sphere w s radius = scene_make w s (sphere_t radius)"

definition cube :: "'m world \<Rightarrow> scene_ptr \<Rightarrow> real \<Rightarrow> error + (addr \<times> 'm world)" where
  "cube w s side = scene_make w s (cube_t side)"

text \<open>\<open>scene::toplevel(obj, material)\<close>: \<open>obj\<close> is stored, never read.\<close>

definition toplevel :: "'m world \<Rightarrow> scene_ptr \<Rightarrow> addr \<Rightarrow> 'm \<Rightarrow> error + 'm world" where
  "toplevel w s obj material =
     (case scene_make w s (toplevel_t obj material) of
        Inl e \<Rightarrow> Inl e
      | Inr (t, w') \<Rightarrow>
          let sc = scenes w' ! s
          in Inr (w'\<lparr>scenes := (scenes w')[s := sc\<lparr>toplevels := toplevels sc @ [t]\<rparr>]\<rparr>))"

text \<open>\<open>scene::begin()\<close> to \<open>scene::end()\<close>, and \<open>scene::size()\<close>.\<close>

definition scene_iter :: "'m world \<Rightarrow> scene_ptr \<Rightarrow> addr list option" where
  "scene_iter w s = (if s < length (scenes w) then Some (toplevels (scenes w ! s)) else None)"

definition scene_size :: "'m world \<Rightarrow> scene_ptr \<Rightarrow> nat option" where
  "scene_size w s =
     (if s < length (scenes w) then Some (length (toplevels (scenes w ! s))) else None)"

subsection \<open>The builders\<close>

text \<open>
  \<open>unite\<close>, \<open>intersect\<close> and \<open>subtract\<close> on two nodes: read both scenes, assert
  that they are the same, and make the node in the scene of \<open>left\<close>.
\<close>

definition binary_op ::
  "(addr \<Rightarrow> addr \<Rightarrow> 'm node) \<Rightarrow> 'm world \<Rightarrow> addr \<Rightarrow> addr \<Rightarrow> error + (addr \<times> 'm world)" where
  "binary_op mk w left right =
     (case deref w left of
        None \<Rightarrow> Inl InvalidPointer
      | Some l \<Rightarrow>
          (case deref w right of
             None \<Rightarrow> Inl InvalidPointer
           | Some r \<Rightarrow>
               if obj_scene l = obj_scene r then scene_make w (obj_scene l) (mk left right)
               else Inl AssertionFailed))"

definition unite :: "'m world \<Rightarrow> addr \<Rightarrow> addr \<Rightarrow> error + (addr \<times> 'm world)" where
  "unite w left right = binary_op union_t w left right"

definition intersect :: "'m world \<Rightarrow> addr \<Rightarrow> addr \<Rightarrow> error + (addr \<times> 'm world)" where
  "intersect w left right = binary_op intersection_t w left right"

definition subtract :: "'m world \<Rightarrow> addr \<Rightarrow> addr \<Rightarrow> error + (addr \<times> 'm world)" where
  "subtract w left right = binary_op difference_t w left right"

text \<open>\<open>transform(node, matrix)\<close>: no assertion, the matrix is passed on as it is.\<close>

definition transform :: "'m world \<Rightarrow> addr \<Rightarrow> mat4 \<Rightarrow> error + (addr \<times> 'm world)" where
  "transform w n matrix =
     (case deref w n of
        None \<Rightarrow> Inl InvalidPointer
      | Some ob \<Rightarrow> scene_make w (obj_scene ob) (transform_t n matrix))"

text \<open>
  The variadic templates, on three or more nodes \<open>a, b, c, rest...\<close>; with two nodes
  overload resolution picks the functions above. The inner call is an argument of the
  outer one, so it runs first. \<open>unite\<close> recurses into \<open>unite\<close>; \<open>intersect\<close> and
  \<open>subtract\<close> both pass the remaining nodes to \<open>unite\<close>.
\<close>

fun unite_v :: "'m world \<Rightarrow> addr \<Rightarrow> addr \<Rightarrow> addr list \<Rightarrow> error + (addr \<times> 'm world)" where
  "unite_v w a b [] = unite w a b"
| "unite_v w a b (c # rest) =
     (case unite_v w b c rest of
        Inl e \<Rightarrow> Inl e
      | Inr (r, w') \<Rightarrow> unite w' a r)"

definition intersect_v :: "'m world \<Rightarrow> addr \<Rightarrow> addr \<Rightarrow> addr list \<Rightarrow> error + (addr \<times> 'm world)" where
  "intersect_v w a b rest =
     (case rest of
        [] \<Rightarrow> intersect w a b
      | c # rest' \<Rightarrow>
          (case unite_v w b c rest' of
             Inl e \<Rightarrow> Inl e
           | Inr (r, w') \<Rightarrow> intersect w' a r))"

definition subtract_v :: "'m world \<Rightarrow> addr \<Rightarrow> addr \<Rightarrow> addr list \<Rightarrow> error + (addr \<times> 'm world)" where
  "subtract_v w a b rest =
     (case rest of
        [] \<Rightarrow> subtract w a b
      | c # rest' \<Rightarrow>
          (case unite_v w b c rest' of
             Inl e \<Rightarrow> Inl e
           | Inr (r, w') \<Rightarrow> subtract w' a r))"

text \<open>The scaling builders: each asserts before it delegates.\<close>

definition scale :: "'m world \<Rightarrow> addr \<Rightarrow> vec3 \<Rightarrow> error + (addr \<times> 'm world)" where
  "scale w n factors =
     (if bvec3_all (vec3_notEqual factors (0, 0, 0))
      then transform w n (glm_scale (vec3_div (1, 1, 1) factors))
      else Inl AssertionFailed)"

definition scale_f :: "'m world \<Rightarrow> addr \<Rightarrow> real \<Rightarrow> error + (addr \<times> 'm world)" where
  "scale_f w n factor =
     (if factor \<noteq> 0 then scale w n (factor, factor, factor) else Inl AssertionFailed)"

definition xscale :: "'m world \<Rightarrow> addr \<Rightarrow> real \<Rightarrow> error + (addr \<times> 'm world)" where
  "xscale w n factor =
     (if factor \<noteq> 0 then scale w n (factor, 1, 1) else Inl AssertionFailed)"

definition yscale :: "'m world \<Rightarrow> addr \<Rightarrow> real \<Rightarrow> error + (addr \<times> 'm world)" where
  "yscale w n factor =
     (if factor \<noteq> 0 then scale w n (1, factor, 1) else Inl AssertionFailed)"

definition zscale :: "'m world \<Rightarrow> addr \<Rightarrow> real \<Rightarrow> error + (addr \<times> 'm world)" where
  "zscale w n factor =
     (if factor \<noteq> 0 then scale w n (1, 1, factor) else Inl AssertionFailed)"

text \<open>The rotation builders, with \<open>glm::rotate(angle, axis)\<close> as the parameter \<open>glm_rotate\<close>.\<close>

definition rotate_obj ::
  "(real \<Rightarrow> vec3 \<Rightarrow> mat4) \<Rightarrow> 'm world \<Rightarrow> addr \<Rightarrow> real \<Rightarrow> vec3 \<Rightarrow> error + (addr \<times> 'm world)" where
  "rotate_obj glm_rotate w n angle axis = transform w n (glm_rotate (- angle) axis)"

definition xrotate ::
  "(real \<Rightarrow> vec3 \<Rightarrow> mat4) \<Rightarrow> 'm world \<Rightarrow> addr \<Rightarrow> real \<Rightarrow> error + (addr \<times> 'm world)" where
  "xrotate glm_rotate w n angle = rotate_obj glm_rotate w n angle (1, 0, 0)"

definition yrotate ::
  "(real \<Rightarrow> vec3 \<Rightarrow> mat4) \<Rightarrow> 'm world \<Rightarrow> addr \<Rightarrow> real \<Rightarrow> error + (addr \<times> 'm world)" where
  "yrotate glm_rotate w n angle = rotate_obj glm_rotate w n angle (0, 1, 0)"

definition zrotate ::
  "(real \<Rightarrow> vec3 \<Rightarrow> mat4) \<Rightarrow> 'm world \<Rightarrow> addr \<Rightarrow> real \<Rightarrow> error + (addr \<times> 'm world)" where
  "zrotate glm_rotate w n angle = rotate_obj glm_rotate w n angle (0, 0, 1)"

text \<open>The translation builders.\<close>

definition translate :: "'m world \<Rightarrow> addr \<Rightarrow> vec3 \<Rightarrow> error + (addr \<times> 'm world)" where
  "translate w n offsets = transform w n (glm_translate (vec3_neg offsets))"

definition xtranslate :: "'m world \<Rightarrow> addr \<Rightarrow> real \<Rightarrow> error + (addr \<times> 'm world)" where
  "xtranslate w n offset = translate w n (offset, 0, 0)"

definition ytranslate :: "'m world \<Rightarrow> addr \<Rightarrow> real \<Rightarrow> error + (addr \<times> 'm world)" where
  "ytranslate w n offset = translate w n (0, offset, 0)"

definition ztranslate :: "'m world \<Rightarrow> addr \<Rightarrow> real \<Rightarrow> error + (addr \<times> 'm world)" where
  "ztranslate w n offset = translate w n (0, 0, offset)"

subsection \<open>Distance evaluation\<close>

text \<open>
  Modelled from the spec: the bodies of \<open>sphere_t::distance\<close>, \<open>cube_t::distance\<close>,
  \<open>toplevel_t::distance\<close>, \<open>union_t::distance\<close>, \<open>intersection_t::distance\<close>,
  \<open>difference_t::distance\<close> and \<open>transform_t::distance\<close> are not in the header, which
  only declares \<open>virtual float distance(glm::vec3 const& from)\<close>. The member is not
  \<open>const\<close>, so the model passes the world through every call and returns it with the
  result. The recursion follows the child pointers: it need not end on a heap with a
  cycle, and reading a pointer that addresses no object is undefined; both are the value
  \<open>None\<close>. The box is taken with half-extent \<open>side / 2\<close> on every axis.
\<close>

fun cube_sdf :: "real \<Rightarrow> vec3 \<Rightarrow> real" where
  "cube_sdf side (x, y, z) =
     (let h = side / 2;
          qx = \<bar>x\<bar> - h;
          qy = \<bar>y\<bar> - h;
          qz = \<bar>z\<bar> - h
      in vec3_length (max qx 0, max qy 0, max qz 0) + min (max qx (max qy qz)) 0)"

partial_function (option) distance :: "'m world \<Rightarrow> addr \<Rightarrow> vec3 \<Rightarrow> (real \<times> 'm world) option" where
  "distance w a p =
     (case deref w a of
        None \<Rightarrow> None
      | Some ob \<Rightarrow>
          (case obj_node ob of
             sphere_t radius \<Rightarrow> Some (vec3_length p - radius, w)
           | cube_t side \<Rightarrow> Some (cube_sdf side p, w)
           | toplevel_t child material \<Rightarrow> distance w child p
           | union_t left right \<Rightarrow>
               Option.bind (distance w left p) (\<lambda>(dl, w1).
               Option.bind (distance w1 right p) (\<lambda>(dr, w2).
               Some (min dl dr, w2)))
           | intersection_t left right \<Rightarrow>
               Option.bind (distance w left p) (\<lambda>(dl, w1).
               Option.bind (distance w1 right p) (\<lambda>(dr, w2).
               Some (max dl dr, w2)))
           | difference_t left right \<Rightarrow>
               Option.bind (distance w left p) (\<lambda>(dl, w1).
               Option.bind (distance w1 right p) (\<lambda>(dr, w2).
               Some (max dl (- dr), w2)))
           | transform_t child M \<Rightarrow> distance w child (mat4_apply M p)))"

text \<open>The number a distance query returns.\<close>

definition distance_of :: "'m world \<Rightarrow> addr \<Rightarrow> vec3 \<Rightarrow> real option" where
  "distance_of w a p = map_option fst (distance w a p)"

subsection \<open>Streaming a scene\<close>

text \<open>
  \<open>operator<<(std::ostream &, scene const &)\<close>: for each toplevel in turn, its dump and
  then a newline. The stream is the text written so far. The bodies of the \<open>dump\<close>
  members are not in the header; \<open>dump w t\<close>, a parameter, is the text that node \<open>t\<close>
  writes.
\<close>

fun stream_toplevels :: "(addr \<Rightarrow> string) \<Rightarrow> addr list \<Rightarrow> string \<Rightarrow> string" where
  "stream_toplevels dump [] out = out"
| "stream_toplevels dump (t # ts) out = stream_toplevels dump ts ((out @ dump t) @ [CHR 0x0A])"

definition stream_scene ::
  "('m world \<Rightarrow> addr \<Rightarrow> string) \<Rightarrow> 'm world \<Rightarrow> scene_ptr \<Rightarrow> string \<Rightarrow> string option" where
  "stream_scene dump w s out =
     (if s < length (scenes w)
      then Some (stream_toplevels (dump w) (toplevels (scenes w ! s)) out)
      else None)"

subsection \<open>Client programs\<close>

text \<open>
  A client builds scenes by a sequence of calls to the constructor, the factory members
  and the friend builders; the first call that fails ends the run.
\<close>

datatype 'm call =
    NewScene
  | Sphere scene_ptr real
  | Cube scene_ptr real
  | Toplevel scene_ptr addr 'm
  | Unite addr addr
  | Intersect addr addr
  | Subtract addr addr
  | Transform addr mat4

fun exec :: "'m world \<Rightarrow> 'm call \<Rightarrow> error + 'm world" where
  "exec w NewScene = Inr (snd (new_scene w))"
| "exec w (Sphere s r) = map_sum id snd (sphere w s r)"
| "exec w (Cube s side) = map_sum id snd (cube w s side)"
| "exec w (Toplevel s obj m) = toplevel w s obj m"
| "exec w (Unite l r) = map_sum id snd (unite w l r)"
| "exec w (Intersect l r) = map_sum id snd (intersect w l r)"
| "exec w (Subtract l r) = map_sum id snd (subtract w l r)"
| "exec w (Transform n M) = map_sum id snd (transform w n M)"

fun run :: "'m world \<Rightarrow> 'm call list \<Rightarrow> error + 'm world" where
  "run w [] = Inr w"
| "run w (c # cs) = (case exec w c of Inl e \<Rightarrow> Inl e | Inr w' \<Rightarrow> run w' cs)"

text \<open>The toplevel registrations of scene \<open>s\<close> in a run, in order.\<close>

fun registered :: "scene_ptr \<Rightarrow> 'm call list \<Rightarrow> (addr \<times> 'm) list" where
  "registered s [] = []"
| "registered s (Toplevel s' obj m # cs) =
     (if s' = s then (obj, m) # registered s cs else registered s cs)"
| "registered s (c # cs) = registered s cs"

text \<open>\<open>child()\<close> and \<open>material()\<close> of an entry the iteration yields.\<close>

definition toplevel_entry :: "'m world \<Rightarrow> addr \<Rightarrow> (addr \<times> 'm) option" where
  "toplevel_entry w t =
     (case deref w t of
        None \<Rightarrow> None
      | Some ob \<Rightarrow> (case obj_node ob of toplevel_t child material \<Rightarrow> Some (child, material) | _ \<Rightarrow> None))"

subsection \<open>Invariants of the heap\<close>

fun children :: "'m node \<Rightarrow> addr list" where
  "children (sphere_t radius) = []"
| "children (cube_t side) = []"
| "children (toplevel_t child material) = [child]"
| "children (union_t left right) = [left, right]"
| "children (intersection_t left right) = [left, right]"
| "children (difference_t left right) = [left, right]"
| "children (transform_t child M) = [child]"

text \<open>
  Every node records a scene that exists, and the operands of a node were allocated
  before it.
\<close>

definition heap_ok :: "'m world \<Rightarrow> bool" where
  "heap_ok w =
     list_all (\<lambda>(a, ob). obj_scene ob < length (scenes w) \<and> list_all (\<lambda>c. c < a) (children (obj_node ob)))
       (enumerate 0 (heap w))"

text \<open>
  Every node records a scene that exists, and the nodes a scene owns are exactly the
  nodes that record it, in allocation order.
\<close>

definition owner_ok :: "'m world \<Rightarrow> bool" where
  "owner_ok w =
     (list_all (\<lambda>ob. obj_scene ob < length (scenes w)) (heap w) \<and>
      list_all (\<lambda>(s, sc). objects sc = filter (\<lambda>a. obj_scene (heap w ! a) = s) [0 ..< length (heap w)])
        (enumerate 0 (scenes w)))"

text \<open>Every registered toplevel pointer addresses an object.\<close>

definition tops_ok :: "'m world \<Rightarrow> bool" where
  "tops_ok w = list_all (\<lambda>sc. list_all (\<lambda>t. t < length (heap w)) (toplevels sc)) (scenes w)"

subsection \<open>An example world\<close>

text \<open>
  Two scenes: scene 0 owns spheres of radius 3, 1 and 2 (addresses 0, 1, 2), scene 1 owns
  a sphere of radius 1 (address 3).
\<close>

definition demo_calls :: "nat call list" where
  "demo_calls = [NewScene, NewScene, Sphere 0 3, Sphere 0 1, Sphere 0 2, Sphere 1 1]"

definition demo_world :: "nat world" where
  "demo_world =
     \<lparr>heap = [\<lparr>obj_scene = 0, obj_node = sphere_t 3\<rparr>,
              \<lparr>obj_scene = 0, obj_node = sphere_t 1\<rparr>,
              \<lparr>obj_scene = 0, obj_node = sphere_t 2\<rparr>,
              \<lparr>obj_scene = 1, obj_node = sphere_t 1\<rparr>],
      scenes = [\<lparr>objects = [0, 1, 2], toplevels = []\<rparr>,
                \<lparr>objects = [3], toplevels = []\<rparr>]\<rparr>"

text \<open>
  A client that goes on from there: it registers sphere 0 with material 7 in scene 0,
  unites spheres 0 and 1, adds a sphere to scene 1, registers sphere 3 with material 9
  in scene 1 and the union with material 8 in scene 0.
\<close>

definition demo_calls2 :: "nat call list" where
  "demo_calls2 = [Toplevel 0 0 7, Unite 0 1, Sphere 1 5, Toplevel 1 3 9, Toplevel 0 5 8]"

definition demo_world2 :: "nat world" where
  "demo_world2 =
     \<lparr>heap = [\<lparr>obj_scene = 0, obj_node = sphere_t 3\<rparr>,
              \<lparr>obj_scene = 0, obj_node = sphere_t 1\<rparr>,
              \<lparr>obj_scene = 0, obj_node = sphere_t 2\<rparr>,
              \<lparr>obj_scene = 1, obj_node = sphere_t 1\<rparr>,
              \<lparr>obj_scene = 0, obj_node = toplevel_t 0 7\<rparr>,
              \<lparr>obj_scene = 0, obj_node = union_t 0 1\<rparr>,
              \<lparr>obj_scene = 1, obj_node = sphere_t 5\<rparr>,
              \<lparr>obj_scene = 1, obj_node = toplevel_t 3 9\<rparr>,
              \<lparr>obj_scene = 0, obj_node = toplevel_t 5 8\<rparr>],
      scenes = [\<lparr>objects = [0, 1, 2, 4, 5, 8], toplevels = [4, 8]\<rparr>,
                \<lparr>objects = [3, 6, 7], toplevels = [7]\<rparr>]\<rparr>"

text \<open>A dump for the examples: the kind of the node and, for a toplevel, its child.\<close>

definition demo_dump :: "nat world \<Rightarrow> addr \<Rightarrow> string" where
  "demo_dump w t =
     (case deref w t of
        None \<Rightarrow> ''?''
      | Some ob \<Rightarrow>
          (case obj_node ob of
             sphere_t radius \<Rightarrow> ''sphere''
           | cube_t side \<Rightarrow> ''cube''
           | toplevel_t child material \<Rightarrow> ''toplevel '' @ replicate child (CHR ''*'')
           | union_t left right \<Rightarrow> ''union''
           | intersection_t left right \<Rightarrow> ''intersection''
           | difference_t left right \<Rightarrow> ''difference''
           | transform_t child M \<Rightarrow> ''transform''))"

text \<open>The distance at \<open>p\<close> of the node a builder returned, if it returned one.\<close>

definition result_distance :: "error + (addr \<times> 'm world) \<Rightarrow> vec3 \<Rightarrow> real option" where
  "result_distance r p = (case r of Inl e \<Rightarrow> None | Inr (u, w') \<Rightarrow> distance_of w' u p)"

text \<open>The nodes allocated from address \<open>n\<close> on, in the world a builder returned.\<close>

definition result_nodes :: "error + (addr \<times> 'm world) \<Rightarrow> nat \<Rightarrow> 'm node list" where
  "result_nodes r n = (case r of Inl e \<Rightarrow> [] | Inr (u, w') \<Rightarrow> map obj_node (drop n (heap w')))"

text \<open>
  The variadic \<open>intersect\<close> and \<open>subtract\<close> as the specification words them, for
  comparison with \<open>intersect_v\<close> and \<open>subtract_v\<close>: a right fold of the pairwise
  combinator itself.
\<close>

fun intersect_rfold_spec :: "'m world \<Rightarrow> addr \<Rightarrow> addr \<Rightarrow> addr list \<Rightarrow> error + (addr \<times> 'm world)" where
  "intersect_rfold_spec w a b [] = intersect w a b"
| "intersect_rfold_spec w a b (c # rest) =
     (case intersect_rfold_spec w b c rest of
        Inl e \<Rightarrow> Inl e
      | Inr (r, w') \<Rightarrow> intersect w' a r)"

fun subtract_rfold_spec :: "'m world \<Rightarrow> addr \<Rightarrow> addr \<Rightarrow> addr list \<Rightarrow> error + (addr \<times> 'm world)" where
  "subtract_rfold_spec w a b [] = subtract w a b"
| "subtract_rfold_spec w a b (c # rest) =
     (case subtract_rfold_spec w b c rest of
        Inl e \<Rightarrow> Inl e
      | Inr (r, w') \<Rightarrow> subtract w' a r)"

text \<open>A rotation about the z axis, to stand for \<open>glm::rotate\<close> in the examples.\<close>

definition rotate_z :: "real \<Rightarrow> vec3 \<Rightarrow> mat4" where
  "rotate_z angle axis =
     ((cos angle, sin angle, 0, 0),
      (- sin angle, cos angle, 0, 0),
      (0, 0, 1, 0),
      (0, 0, 0, 1))"

section \<open>Properties\<close>

subsection \<open>The heap invariant and distance evaluation\<close>

lemma list_all_enumerate:
  "list_all (\<lambda>(i, x). P i x) (enumerate 0 xs) \<longleftrightarrow> (\<forall>i < length xs. P i (xs ! i))"
proof -
  have "set (enumerate 0 xs) = (\<lambda>i. (i, xs ! i)) ` {..< length xs}"
    by (auto simp: in_set_enumerate_eq)
  then show ?thesis
    by (auto simp add: list_all_iff)
qed

lemma heap_ok_iff:
  "heap_ok w \<longleftrightarrow>
     (\<forall>a < length (heap w). obj_scene (heap w ! a) < length (scenes w) \<and>
        (\<forall>c \<in> set (children (obj_node (heap w ! a))). c < a))"
  using list_all_enumerate
    [of "\<lambda>a ob. obj_scene ob < length (scenes w) \<and> list_all (\<lambda>c. c < a) (children (obj_node ob))" "heap w"]
  by (simp add: heap_ok_def list_all_iff)

lemma heap_ok_children:
  "heap_ok w \<Longrightarrow> a < length (heap w) \<Longrightarrow> c \<in> set (children (obj_node (heap w ! a))) \<Longrightarrow> c < a"
  by (simp add: heap_ok_iff)


lemma distance_extend:
  assumes ok: "heap_ok w" and ext: "heap w' = heap w @ xs"
  shows "a < length (heap w) \<Longrightarrow> \<exists>d. distance w a p = Some (d, w) \<and> distance w' a p = Some (d, w')"
proof (induction a arbitrary: p rule: less_induct)
  case (less a)
  have d: "deref w a = Some (heap w ! a)" "deref w' a = Some (heap w ! a)"
    using less.prems ext by (simp_all add: deref_def nth_append)
  have ch: "c \<in> set (children (obj_node (heap w ! a))) \<Longrightarrow>
      \<exists>d. distance w c q = Some (d, w) \<and> distance w' c q = Some (d, w')" for c q
    using less.IH heap_ok_children [OF ok less.prems] less.prems by (meson less_trans)
  show ?case
  proof (cases "obj_node (heap w ! a)")
    case (sphere_t r)
    then show ?thesis
      by (subst distance.simps, subst (2) distance.simps) (simp add: d)
  next
    case (cube_t s)
    then show ?thesis
      by (subst distance.simps, subst (2) distance.simps) (simp add: d)
  next
    case (toplevel_t c m)
    with ch [of c p] show ?thesis
      by (subst distance.simps, subst (2) distance.simps) (simp add: d)
  next
    case (union_t l r)
    with ch [of l p] ch [of r p] show ?thesis
      by (subst distance.simps, subst (2) distance.simps) (auto simp add: d)
  next
    case (intersection_t l r)
    with ch [of l p] ch [of r p] show ?thesis
      by (subst distance.simps, subst (2) distance.simps) (auto simp add: d)
  next
    case (difference_t l r)
    with ch [of l p] ch [of r p] show ?thesis
      by (subst distance.simps, subst (2) distance.simps) (auto simp add: d)
  next
    case (transform_t c M)
    with ch [of c "mat4_apply M p"] show ?thesis
      by (subst distance.simps, subst (2) distance.simps) (simp add: d)
  qed
qed

lemma distance_total:
  "heap_ok w \<Longrightarrow> a < length (heap w) \<Longrightarrow> \<exists>d. distance w a p = Some (d, w)"
  using distance_extend [of w w "[]" a p] by auto

lemma distance_pure:
  assumes "distance w a p = Some y"
  shows "snd y = w"
proof (rule distance.raw_induct [where P = "\<lambda>w a p y. snd y = w", OF _ assms])
  fix f :: "'a world \<Rightarrow> addr \<Rightarrow> vec3 \<Rightarrow> (real \<times> 'a world) option" and w a p y
  assume IH: "\<And>w a p y. f w a p = Some y \<Longrightarrow> snd y = w"
  have IH': "f w a p = Some (d, w') \<Longrightarrow> w' = w" for w a p d w'
    using IH by fastforce
  assume "(case deref w a of
        None \<Rightarrow> None
      | Some ob \<Rightarrow>
          (case obj_node ob of
             sphere_t radius \<Rightarrow> Some (vec3_length p - radius, w)
           | cube_t side \<Rightarrow> Some (cube_sdf side p, w)
           | toplevel_t child material \<Rightarrow> f w child p
           | union_t left right \<Rightarrow>
               Option.bind (f w left p) (\<lambda>(dl, w1).
               Option.bind (f w1 right p) (\<lambda>(dr, w2).
               Some (min dl dr, w2)))
           | intersection_t left right \<Rightarrow>
               Option.bind (f w left p) (\<lambda>(dl, w1).
               Option.bind (f w1 right p) (\<lambda>(dr, w2).
               Some (max dl dr, w2)))
           | difference_t left right \<Rightarrow>
               Option.bind (f w left p) (\<lambda>(dl, w1).
               Option.bind (f w1 right p) (\<lambda>(dr, w2).
               Some (max dl (- dr), w2)))
           | transform_t child M \<Rightarrow> f w child (mat4_apply M p))) = Some y"
  then show "snd y = w"
    by (auto split: option.splits node.splits Option.bind_splits dest!: IH' dest: IH)
qed

lemma distance_of_extend:
  "heap_ok w \<Longrightarrow> heap w' = heap w @ xs \<Longrightarrow> a < length (heap w) \<Longrightarrow>
   \<exists>d. distance_of w a p = Some d \<and> distance_of w' a p = Some d \<and> distance w' a p = Some (d, w')"
  using distance_extend [of w w' xs a p] by (auto simp: distance_of_def)

lemma scene_make_Inr:
  "scene_make w s n = Inr (u, w') \<longleftrightarrow>
     s < length (scenes w) \<and> u = length (heap w) \<and>
     w' = w\<lparr>heap := heap w @ [\<lparr>obj_scene = s, obj_node = n\<rparr>],
           scenes := (scenes w)[s := (scenes w ! s)\<lparr>objects := objects (scenes w ! s) @ [length (heap w)]\<rparr>]\<rparr>"
  by (auto simp: scene_make_def Let_def)

lemma scene_make_heap_ok:
  assumes "heap_ok w" "scene_make w s n = Inr (u, w')" "\<forall>c \<in> set (children n). c < length (heap w)"
  shows "heap_ok w'"
  using assms by (auto simp: heap_ok_iff scene_make_Inr nth_append less_Suc_eq)

lemma binary_op_Inr:
  "binary_op mk w a b = Inr (u, w') \<longleftrightarrow>
     a < length (heap w) \<and> b < length (heap w) \<and>
     obj_scene (heap w ! a) = obj_scene (heap w ! b) \<and>
     scene_make w (obj_scene (heap w ! a)) (mk a b) = Inr (u, w')"
  by (auto simp: binary_op_def deref_def)

lemma binary_node_distance:
  assumes ok: "heap_ok w"
    and mk: "scene_make w s n = Inr (u, w')"
    and a: "a < length (heap w)" and b: "b < length (heap w)"
    and n: "n = union_t a b \<and> f = min \<or> n = intersection_t a b \<and> f = max
            \<or> n = difference_t a b \<and> f = (\<lambda>x y. max x (- y))"
  shows "\<exists>da db. distance_of w a p = Some da \<and> distance_of w b p = Some db \<and>
           distance_of w' a p = Some da \<and> distance_of w' b p = Some db \<and>
           distance_of w' u p = Some (f da db)"
proof -
  from mk have h: "heap w' = heap w @ [\<lparr>obj_scene = s, obj_node = n\<rparr>]" and u: "u = length (heap w)"
    by (auto simp: scene_make_Inr)
  obtain da where da: "distance_of w a p = Some da" "distance_of w' a p = Some da"
      "distance w' a p = Some (da, w')"
    using distance_of_extend [OF ok h a] by blast
  obtain db where db: "distance_of w b p = Some db" "distance_of w' b p = Some db"
      "distance w' b p = Some (db, w')"
    using distance_of_extend [OF ok h b] by blast
  have du: "deref w' u = Some \<lparr>obj_scene = s, obj_node = n\<rparr>"
    by (simp add: deref_def h u)
  have "distance w' u p = Some (f da db, w')"
    using n by (subst distance.simps) (auto simp: du da db)
  then show ?thesis
    using da db by (auto simp: distance_of_def)
qed

lemma binary_op_distance:
  assumes ok: "heap_ok w"
    and a: "deref w a = Some oa" and b: "deref w b = Some ob"
    and sc: "obj_scene oa = obj_scene ob"
    and n: "mk = union_t \<and> f = min \<or> mk = intersection_t \<and> f = max
            \<or> mk = difference_t \<and> f = (\<lambda>x y. max x (- y))"
  shows "\<exists>u w' da db. binary_op mk w a b = Inr (u, w') \<and>
           distance_of w a p = Some da \<and> distance_of w b p = Some db \<and>
           distance_of w' a p = Some da \<and> distance_of w' b p = Some db \<and>
           distance_of w' u p = Some (f da db)"
proof -
  from a b sc have la: "a < length (heap w)" and lb: "b < length (heap w)"
    and eq: "obj_scene (heap w ! a) = obj_scene (heap w ! b)"
    by (auto simp: deref_def split: if_splits)
  from ok la have "obj_scene (heap w ! a) < length (scenes w)"
    by (simp add: heap_ok_iff)
  then obtain u w' where m: "scene_make w (obj_scene (heap w ! a)) (mk a b) = Inr (u, w')"
    by (simp add: scene_make_Inr)
  then have r: "binary_op mk w a b = Inr (u, w')"
    by (simp add: binary_op_Inr la lb eq)
  from n have "mk a b = union_t a b \<and> f = min \<or> mk a b = intersection_t a b \<and> f = max
            \<or> mk a b = difference_t a b \<and> f = (\<lambda>x y. max x (- y))"
    by auto
  from binary_node_distance [OF ok m la lb this, of p] r show ?thesis
    by blast
qed

lemma demo_heap_ok: "heap_ok demo_world"
  by (simp add: heap_ok_def demo_world_def)

lemma demo_distance_0: "distance_of demo_world 0 (0, 0, 0) = Some (- 3)"
  by (simp add: distance_of_def distance.simps deref_def demo_world_def)

lemma demo_distance_1: "distance_of demo_world (Suc 0) (0, 0, 0) = Some (- 1)"
  by (simp add: distance_of_def distance.simps deref_def demo_world_def)

subsection \<open>The binary combinators\<close>

text \<open>
  Claim C1. For two nodes \<open>a\<close> and \<open>b\<close> of the same scene, in a world whose heap is well
  formed, and every query point \<open>p\<close>: \<open>unite\<close>, \<open>intersect\<close> and \<open>subtract\<close> each
  return a new node, the distances of \<open>a\<close> and \<open>b\<close> are the same before and after the
  call, and the distance of the new node at \<open>p\<close> is the minimum of the two for the union,
  the maximum for the intersection, and the maximum of the left distance and the negated
  right distance for the difference.
\<close>

theorem union_intersection_difference_distance:
  assumes "heap_ok w" and "deref w a = Some oa" and "deref w b = Some ob"
    and "obj_scene oa = obj_scene ob"
  shows "(\<exists>u w' da db. unite w a b = Inr (u, w') \<and>
            distance_of w a p = Some da \<and> distance_of w b p = Some db \<and>
            distance_of w' a p = Some da \<and> distance_of w' b p = Some db \<and>
            distance_of w' u p = Some (min da db)) \<and>
         (\<exists>u w' da db. intersect w a b = Inr (u, w') \<and>
            distance_of w a p = Some da \<and> distance_of w b p = Some db \<and>
            distance_of w' a p = Some da \<and> distance_of w' b p = Some db \<and>
            distance_of w' u p = Some (max da db)) \<and>
         (\<exists>u w' da db. subtract w a b = Inr (u, w') \<and>
            distance_of w a p = Some da \<and> distance_of w b p = Some db \<and>
            distance_of w' a p = Some da \<and> distance_of w' b p = Some db \<and>
            distance_of w' u p = Some (max da (- db)))"
  unfolding unite_def intersect_def subtract_def
  using binary_op_distance [OF assms, of union_t min p]
    binary_op_distance [OF assms, of intersection_t max p]
    binary_op_distance [OF assms, of difference_t "\<lambda>x y. max x (- y)" p]
  by simp

theorem union_intersection_difference_distance_witness:
  "heap_ok demo_world \<and>
   deref demo_world 0 = Some \<lparr>obj_scene = 0, obj_node = sphere_t 3\<rparr> \<and>
   deref demo_world 1 = Some \<lparr>obj_scene = 0, obj_node = sphere_t 1\<rparr> \<and>
   (\<exists>u w'. unite demo_world 0 1 = Inr (u, w') \<and> distance_of w' u (0, 0, 0) = Some (- 3)) \<and>
   (\<exists>u w'. intersect demo_world 0 1 = Inr (u, w') \<and> distance_of w' u (0, 0, 0) = Some (- 1)) \<and>
   (\<exists>u w'. subtract demo_world 0 1 = Inr (u, w') \<and> distance_of w' u (0, 0, 0) = Some 1)"
proof -
  have a: "deref demo_world 0 = Some \<lparr>obj_scene = 0, obj_node = sphere_t 3\<rparr>"
    and b: "deref demo_world 1 = Some \<lparr>obj_scene = 0, obj_node = sphere_t 1\<rparr>"
    by (simp_all add: deref_def demo_world_def)
  have sc: "obj_scene \<lparr>obj_scene = 0, obj_node = sphere_t 3 :: nat node\<rparr>
      = obj_scene \<lparr>obj_scene = 0, obj_node = sphere_t 1 :: nat node\<rparr>"
    by simp
  from union_intersection_difference_distance [OF demo_heap_ok a b sc, of "(0, 0, 0)"]
  show ?thesis
    using demo_heap_ok a b by (auto simp: demo_distance_0 demo_distance_1)
qed



lemma deref_Some: "deref w a = Some ob \<longleftrightarrow> a < length (heap w) \<and> ob = heap w ! a"
  by (auto simp: deref_def)

lemma scene_make_deref:
  "scene_make w s n = Inr (u, w') \<Longrightarrow> deref w' u = Some \<lparr>obj_scene = s, obj_node = n\<rparr>"
  by (auto simp: scene_make_Inr deref_def)

lemma transform_Inr:
  "transform w c M = Inr (t, w') \<longleftrightarrow>
     c < length (heap w) \<and> scene_make w (obj_scene (heap w ! c)) (transform_t c M) = Inr (t, w')"
  by (auto simp: transform_def deref_def)

lemma transform_ok:
  assumes ok: "heap_ok w" and c: "deref w c = Some oc"
  shows "\<exists>t w'. transform w c M = Inr (t, w') \<and>
           deref w' t = Some \<lparr>obj_scene = obj_scene oc, obj_node = transform_t c M\<rparr> \<and>
           (\<forall>p. \<exists>d. distance_of w c (mat4_apply M p) = Some d \<and>
                 distance_of w' c (mat4_apply M p) = Some d \<and>
                 distance_of w' t p = Some d)"
proof -
  from c have lc: "c < length (heap w)" and oc: "oc = heap w ! c"
    by (auto simp: deref_Some)
  with ok have "obj_scene oc < length (scenes w)"
    by (simp add: heap_ok_iff)
  then obtain t w' where m: "scene_make w (obj_scene oc) (transform_t c M) = Inr (t, w')"
    by (simp add: scene_make_Inr)
  then have r: "transform w c M = Inr (t, w')"
    by (simp add: transform_Inr lc oc)
  have d: "deref w' t = Some \<lparr>obj_scene = obj_scene oc, obj_node = transform_t c M\<rparr>"
    using m by (rule scene_make_deref)
  from m have h: "heap w' = heap w @ [\<lparr>obj_scene = obj_scene oc, obj_node = transform_t c M\<rparr>]"
    by (auto simp: scene_make_Inr)
  have "\<exists>d. distance_of w c (mat4_apply M p) = Some d \<and>
            distance_of w' c (mat4_apply M p) = Some d \<and> distance_of w' t p = Some d" for p
  proof -
    obtain e where e: "distance_of w c (mat4_apply M p) = Some e"
        "distance_of w' c (mat4_apply M p) = Some e"
        "distance w' c (mat4_apply M p) = Some (e, w')"
      using distance_of_extend [OF ok h lc] by blast
    have "distance w' t p = Some (e, w')"
      by (subst distance.simps) (simp add: d e)
    with e show ?thesis
      by (simp add: distance_of_def)
  qed
  with r d show ?thesis
    by blast
qed

subsection \<open>The sphere\<close>

text \<open>
  Claim C5. For every radius \<open>r\<close> (positive or not), every scene \<open>s\<close> that exists and
  every query point \<open>p\<close>: \<open>scene::sphere(r)\<close> returns a node of \<open>s\<close> that stores
  \<open>r\<close>, and its distance at \<open>p\<close> is the Euclidean norm of \<open>p\<close> minus \<open>r\<close>: zero
  exactly when the norm equals \<open>r\<close>, negative exactly when the norm is smaller, positive
  exactly when it is larger.
\<close>

theorem sphere_distance:
  assumes "s < length (scenes w)"
  shows "\<exists>a w' d. sphere w s r = Inr (a, w') \<and>
           deref w' a = Some \<lparr>obj_scene = s, obj_node = sphere_t r\<rparr> \<and>
           distance_of w' a p = Some d \<and> d = vec3_length p - r \<and>
           (d = 0 \<longleftrightarrow> vec3_length p = r) \<and>
           (d < 0 \<longleftrightarrow> vec3_length p < r) \<and>
           (0 < d \<longleftrightarrow> r < vec3_length p)"
proof -
  from assms obtain a w' where m: "scene_make w s (sphere_t r) = Inr (a, w')"
    by (simp add: scene_make_Inr)
  then have d: "deref w' a = Some \<lparr>obj_scene = s, obj_node = sphere_t r\<rparr>"
    by (rule scene_make_deref)
  have "distance w' a p = Some (vec3_length p - r, w')"
    by (subst distance.simps) (simp add: d)
  then have "distance_of w' a p = Some (vec3_length p - r)"
    by (simp add: distance_of_def)
  with m d show ?thesis
    by (auto simp: sphere_def)
qed

theorem sphere_distance_witness:
  "(0::nat) < length (scenes demo_world) \<and>
   (\<exists>a w'. sphere demo_world 0 2 = Inr (a, w') \<and> distance_of w' a (0, 0, 0) = Some (- 2))"
proof -
  have s: "(0::nat) < length (scenes demo_world)"
    by (simp add: demo_world_def)
  from sphere_distance [OF s, of 2 "(0, 0, 0)"] s show ?thesis
    by auto
qed

subsection \<open>The transform node\<close>

text \<open>
  Claim C2. For every node \<open>c\<close> of a well-formed heap, every matrix \<open>M\<close> and every
  query point \<open>p\<close>: \<open>transform(c, M)\<close> returns a new node that stores \<open>c\<close> and \<open>M\<close>
  as given, whatever \<open>M\<close> is, and the distance of the new node at \<open>p\<close> is the distance
  of \<open>c\<close> at \<open>M \<cdot> p\<close>, which the call does not change.
\<close>

theorem transform_distance:
  assumes "heap_ok w" and "deref w c = Some oc"
  shows "\<exists>t w'. transform w c M = Inr (t, w') \<and>
           map_option obj_node (deref w' t) = Some (transform_t c M) \<and>
           (\<exists>d. distance_of w c (mat4_apply M p) = Some d \<and>
                distance_of w' c (mat4_apply M p) = Some d \<and> distance_of w' t p = Some d)"
  using transform_ok [OF assms, of M] by (metis option.simps(9) object.select_convs(2))

theorem transform_distance_witness:
  "heap_ok demo_world \<and>
   deref demo_world 0 = Some \<lparr>obj_scene = 0, obj_node = sphere_t 3\<rparr> \<and>
   (\<exists>t w'. transform demo_world 0 (glm_translate (1, 0, 0)) = Inr (t, w') \<and>
      map_option obj_node (deref w' t) = Some (transform_t 0 (glm_translate (1, 0, 0))) \<and>
      distance_of w' t (- 1, 0, 0) = Some (- 3))"
proof -
  have c: "deref demo_world 0 = Some \<lparr>obj_scene = 0, obj_node = sphere_t 3\<rparr>"
    by (simp add: deref_def demo_world_def)
  obtain t w' d where t: "transform demo_world 0 (glm_translate (1, 0, 0)) = Inr (t, w')"
      "map_option obj_node (deref w' t) = Some (transform_t 0 (glm_translate (1, 0, 0)))"
      "distance_of demo_world 0 (mat4_apply (glm_translate (1, 0, 0)) (- 1, 0, 0)) = Some d"
      "distance_of w' 0 (mat4_apply (glm_translate (1, 0, 0)) (- 1, 0, 0)) = Some d"
      "distance_of w' t (- 1, 0, 0) = Some d"
    using transform_distance [OF demo_heap_ok c, of "glm_translate (1, 0, 0)" "(- 1, 0, 0)"]
    by blast
  have "w' = snd (length (heap demo_world),
      demo_world\<lparr>heap := heap demo_world @ [\<lparr>obj_scene = 0, obj_node = transform_t 0 (glm_translate (1, 0, 0))\<rparr>],
        scenes := (scenes demo_world)[0 := (scenes demo_world ! 0)\<lparr>objects := objects (scenes demo_world ! 0) @ [length (heap demo_world)]\<rparr>]\<rparr>)"
    using t(1) by (simp add: transform_Inr scene_make_Inr demo_world_def)
  then have "distance_of w' 0 (mat4_apply (glm_translate (1, 0, 0)) (- 1, 0, 0)) = Some (- 3)"
    by (simp add: distance_of_def distance.simps deref_def demo_world_def)
  with t demo_heap_ok c show ?thesis
    by auto
qed



lemma glm_scale_inverse:
  "fx \<noteq> 0 \<Longrightarrow> fy \<noteq> 0 \<Longrightarrow> fz \<noteq> 0 \<Longrightarrow>
   mat4_apply (glm_scale (vec3_div (1, 1, 1) (fx, fy, fz))) (mat4_apply (glm_scale (fx, fy, fz)) (x, y, z)) = (x, y, z)"
  by simp

lemma glm_translate_inverse:
  "mat4_apply (glm_translate (vec3_neg (tx, ty, tz))) (mat4_apply (glm_translate (tx, ty, tz)) (x, y, z)) = (x, y, z)"
  by simp

lemma transform_stores:
  assumes "heap_ok w" and "deref w n = Some ob"
  shows "\<exists>t w'. transform w n M = Inr (t, w') \<and>
           map_option obj_node (deref w' t) = Some (transform_t n M)"
  using transform_ok [OF assms, of M] by (metis option.simps(9) object.select_convs(2))

lemma axis_builders:
  "f \<noteq> 0 \<Longrightarrow> xscale w n f = scale w n (f, 1, 1)"
  "f \<noteq> 0 \<Longrightarrow> yscale w n f = scale w n (1, f, 1)"
  "f \<noteq> 0 \<Longrightarrow> zscale w n f = scale w n (1, 1, f)"
  "xrotate glm_rotate w n angle = transform w n (glm_rotate (- angle) (1, 0, 0))"
  "yrotate glm_rotate w n angle = transform w n (glm_rotate (- angle) (0, 1, 0))"
  "zrotate glm_rotate w n angle = transform w n (glm_rotate (- angle) (0, 0, 1))"
  "xtranslate w n d = transform w n (glm_translate (- d, 0, 0))"
  "ytranslate w n d = transform w n (glm_translate (0, - d, 0))"
  "ztranslate w n d = transform w n (glm_translate (0, 0, - d))"
  by (simp_all add: xscale_def yscale_def zscale_def xrotate_def yrotate_def zrotate_def
      rotate_obj_def xtranslate_def ytranslate_def ztranslate_def translate_def)

subsection \<open>The convenience builders\<close>

text \<open>
  Claim C3. For every node \<open>n\<close> of a well-formed heap: \<open>scale(n, f)\<close> with no zero
  component in \<open>f\<close> returns a transform node of \<open>n\<close> whose matrix is the scaling by
  the componentwise reciprocal of \<open>f\<close> (also for the overload with one factor);
  \<open>rotate(n, angle, axis)\<close> returns one whose matrix is \<open>glm::rotate\<close> of the negated
  angle and the axis; \<open>translate(n, t)\<close> returns one whose matrix is the translation by
  the negated \<open>t\<close>.
\<close>

theorem builders_pre_invert:
  assumes "heap_ok w" and "deref w n = Some ob"
  shows "(fx \<noteq> 0 \<and> fy \<noteq> 0 \<and> fz \<noteq> 0 \<longrightarrow>
            (\<exists>t w'. scale w n (fx, fy, fz) = Inr (t, w') \<and>
               map_option obj_node (deref w' t) = Some (transform_t n (glm_scale (1 / fx, 1 / fy, 1 / fz))))) \<and>
         (f \<noteq> 0 \<longrightarrow>
            (\<exists>t w'. scale_f w n f = Inr (t, w') \<and>
               map_option obj_node (deref w' t) = Some (transform_t n (glm_scale (1 / f, 1 / f, 1 / f))))) \<and>
         (\<exists>t w'. rotate_obj glm_rotate w n angle axis = Inr (t, w') \<and>
            map_option obj_node (deref w' t) = Some (transform_t n (glm_rotate (- angle) axis))) \<and>
         (\<exists>t w'. translate w n (tx, ty, tz) = Inr (t, w') \<and>
            map_option obj_node (deref w' t) = Some (transform_t n (glm_translate (- tx, - ty, - tz))))"
proof (intro conjI impI)
  assume "fx \<noteq> 0 \<and> fy \<noteq> 0 \<and> fz \<noteq> 0"
  then show "\<exists>t w'. scale w n (fx, fy, fz) = Inr (t, w') \<and>
      map_option obj_node (deref w' t) = Some (transform_t n (glm_scale (1 / fx, 1 / fy, 1 / fz)))"
    using transform_stores [OF assms, of "glm_scale (1 / fx, 1 / fy, 1 / fz)"]
    by (simp add: scale_def)
next
  assume "f \<noteq> 0"
  then show "\<exists>t w'. scale_f w n f = Inr (t, w') \<and>
      map_option obj_node (deref w' t) = Some (transform_t n (glm_scale (1 / f, 1 / f, 1 / f)))"
    using transform_stores [OF assms, of "glm_scale (1 / f, 1 / f, 1 / f)"]
    by (simp add: scale_f_def scale_def)
next
  show "\<exists>t w'. rotate_obj glm_rotate w n angle axis = Inr (t, w') \<and>
      map_option obj_node (deref w' t) = Some (transform_t n (glm_rotate (- angle) axis))"
    using transform_stores [OF assms, of "glm_rotate (- angle) axis"]
    by (simp add: rotate_obj_def)
next
  show "\<exists>t w'. translate w n (tx, ty, tz) = Inr (t, w') \<and>
      map_option obj_node (deref w' t) = Some (transform_t n (glm_translate (- tx, - ty, - tz)))"
    using transform_stores [OF assms, of "glm_translate (- tx, - ty, - tz)"]
    by (simp add: translate_def)
qed

theorem builders_pre_invert_witness:
  "heap_ok demo_world \<and>
   deref demo_world 0 = Some \<lparr>obj_scene = 0, obj_node = sphere_t 3\<rparr> \<and>
   (\<exists>t w'. scale demo_world 0 (2, 4, 5) = Inr (t, w') \<and>
      map_option obj_node (deref w' t) = Some (transform_t 0 (glm_scale (1 / 2, 1 / 4, 1 / 5)))) \<and>
   (\<exists>t w'. scale_f demo_world 0 2 = Inr (t, w') \<and>
      map_option obj_node (deref w' t) = Some (transform_t 0 (glm_scale (1 / 2, 1 / 2, 1 / 2)))) \<and>
   (\<exists>t w'. rotate_obj rotate_z demo_world 0 1 (0, 0, 1) = Inr (t, w') \<and>
      map_option obj_node (deref w' t) = Some (transform_t 0 (rotate_z (- 1) (0, 0, 1)))) \<and>
   (\<exists>t w'. translate demo_world 0 (1, 2, 3) = Inr (t, w') \<and>
      map_option obj_node (deref w' t) = Some (transform_t 0 (glm_translate (- 1, - 2, - 3))))"
proof -
  have c: "deref demo_world 0 = Some \<lparr>obj_scene = 0, obj_node = sphere_t 3\<rparr>"
    by (simp add: deref_def demo_world_def)
  from builders_pre_invert [OF demo_heap_ok c, of 2 4 5 2 rotate_z 1 "(0, 0, 1)" 1 2 3]
  show ?thesis
    using demo_heap_ok c by simp
qed

lemma owner_ok_iff:
  "owner_ok w \<longleftrightarrow>
     (\<forall>a < length (heap w). obj_scene (heap w ! a) < length (scenes w)) \<and>
     (\<forall>s < length (scenes w).
        objects (scenes w ! s) = filter (\<lambda>a. obj_scene (heap w ! a) = s) [0 ..< length (heap w)])"
  using list_all_enumerate
    [of "\<lambda>s sc. objects sc = filter (\<lambda>a. obj_scene (heap w ! a) = s) [0 ..< length (heap w)]" "scenes w"]
  by (simp add: owner_ok_def list_all_length)

lemma owner_ok_mem:
  "owner_ok w \<Longrightarrow> s < length (scenes w) \<Longrightarrow>
   a \<in> set (objects (scenes w ! s)) \<longleftrightarrow> a < length (heap w) \<and> obj_scene (heap w ! a) = s"
  by (auto simp: owner_ok_iff)

lemma demo_owner_ok: "owner_ok demo_world"
  by (simp add: owner_ok_def demo_world_def)

subsection \<open>Contract violations\<close>

text \<open>
  Claim C6. For two nodes owned by two distinct scenes, \<open>unite\<close>, \<open>intersect\<close> and
  \<open>subtract\<close> end in the failed assertion and return no node and no world; \<open>scale\<close>
  with a zero component, and \<open>scale\<close> with one factor, \<open>xscale\<close>, \<open>yscale\<close> and
  \<open>zscale\<close> with factor zero, end in the failed assertion too, whatever the node is.
\<close>

theorem contract_violations_assert:
  "(owner_ok w \<and> s1 < length (scenes w) \<and> s2 < length (scenes w) \<and> s1 \<noteq> s2 \<and>
    a \<in> set (objects (scenes w ! s1)) \<and> b \<in> set (objects (scenes w ! s2)) \<longrightarrow>
      unite w a b = Inl AssertionFailed \<and>
      intersect w a b = Inl AssertionFailed \<and>
      subtract w a b = Inl AssertionFailed) \<and>
   (fx = 0 \<or> fy = 0 \<or> fz = 0 \<longrightarrow> scale w n (fx, fy, fz) = Inl AssertionFailed) \<and>
   scale_f w n 0 = Inl AssertionFailed \<and>
   xscale w n 0 = Inl AssertionFailed \<and>
   yscale w n 0 = Inl AssertionFailed \<and>
   zscale w n 0 = Inl AssertionFailed"
proof (intro conjI impI)
  assume h: "owner_ok w \<and> s1 < length (scenes w) \<and> s2 < length (scenes w) \<and> s1 \<noteq> s2 \<and>
    a \<in> set (objects (scenes w ! s1)) \<and> b \<in> set (objects (scenes w ! s2))"
  then have "a < length (heap w)" "b < length (heap w)"
      "obj_scene (heap w ! a) \<noteq> obj_scene (heap w ! b)"
    by (auto simp: owner_ok_mem)
  then have "binary_op mk w a b = Inl AssertionFailed" for mk :: "addr \<Rightarrow> addr \<Rightarrow> 'a node"
    by (simp add: binary_op_def deref_def)
  then show "unite w a b = Inl AssertionFailed" "intersect w a b = Inl AssertionFailed"
      "subtract w a b = Inl AssertionFailed"
    by (simp_all add: unite_def intersect_def subtract_def)
qed (auto simp: scale_def scale_f_def xscale_def yscale_def zscale_def)

theorem contract_violations_assert_witness:
  "owner_ok demo_world \<and> (0::nat) < length (scenes demo_world) \<and> (1::nat) < length (scenes demo_world) \<and>
   (0::nat) \<in> set (objects (scenes demo_world ! 0)) \<and> (3::nat) \<in> set (objects (scenes demo_world ! 1)) \<and>
   unite demo_world 0 3 = Inl AssertionFailed \<and>
   intersect demo_world 0 3 = Inl AssertionFailed \<and>
   subtract demo_world 0 3 = Inl AssertionFailed \<and>
   scale demo_world 0 (2, 0, 1) = Inl AssertionFailed \<and>
   xscale demo_world 0 0 = Inl AssertionFailed"
proof -
  have h: "(0::nat) < length (scenes demo_world)" "(1::nat) < length (scenes demo_world)"
    "(0::nat) \<in> set (objects (scenes demo_world ! 0))" "(3::nat) \<in> set (objects (scenes demo_world ! 1))"
    by (simp_all add: demo_world_def)
  from contract_violations_assert [of demo_world 0 1 0 3 2 0 1 0] demo_owner_ok h
  show ?thesis
    by simp
qed



subsection \<open>Runs of client programs\<close>

lemma new_scene_owner_ok:
  assumes "owner_ok w"
  shows "owner_ok (snd (new_scene w))"
proof -
  have "filter (\<lambda>a. obj_scene (heap w ! a) = length (scenes w)) [0 ..< length (heap w)] = []"
    using assms by (auto simp: owner_ok_iff filter_empty_conv)
  with assms show ?thesis
    by (auto simp: owner_ok_iff new_scene_def nth_append less_Suc_eq)
qed

lemma scene_make_owner_ok:
  assumes ok: "owner_ok w" and m: "scene_make w s n = Inr (u, w')"
  shows "owner_ok w'"
proof -
  from m have s: "s < length (scenes w)" and u: "u = length (heap w)"
    and h: "heap w' = heap w @ [\<lparr>obj_scene = s, obj_node = n\<rparr>]"
    and sc: "scenes w' = (scenes w)[s := (scenes w ! s)\<lparr>objects := objects (scenes w ! s) @ [length (heap w)]\<rparr>]"
    by (auto simp: scene_make_Inr)
  have f: "filter (\<lambda>a. obj_scene (heap w' ! a) = t) [0 ..< length (heap w)]
      = filter (\<lambda>a. obj_scene (heap w ! a) = t) [0 ..< length (heap w)]" for t
    by (rule filter_cong) (auto simp: h nth_append)
  have "objects (scenes w' ! t) = filter (\<lambda>a. obj_scene (heap w' ! a) = t) [0 ..< length (heap w')]"
    if t: "t < length (scenes w)" for t
  proof -
    have o: "objects (scenes w ! t) = filter (\<lambda>a. obj_scene (heap w ! a) = t) [0 ..< length (heap w)]"
      using ok t by (simp add: owner_ok_iff)
    have l: "[0 ..< length (heap w')] = [0 ..< length (heap w)] @ [length (heap w)]"
      by (simp add: h)
    show ?thesis
      unfolding l filter_append f
      using t s o by (cases "t = s") (auto simp: sc h)
  qed
  moreover have "\<forall>a < length (heap w'). obj_scene (heap w' ! a) < length (scenes w')"
    using ok s by (auto simp: owner_ok_iff h sc nth_append less_Suc_eq)
  ultimately show ?thesis
    by (simp add: owner_ok_iff sc)
qed

lemma toplevel_Inr:
  "toplevel w s obj m = Inr w' \<longleftrightarrow>
     (\<exists>t w1. scene_make w s (toplevel_t obj m) = Inr (t, w1) \<and>
        w' = w1\<lparr>scenes := (scenes w1)[s := (scenes w1 ! s)\<lparr>toplevels := toplevels (scenes w1 ! s) @ [t]\<rparr>]\<rparr>)"
  by (auto simp: toplevel_def Let_def split: sum.splits)

lemma toplevel_owner_ok:
  assumes ok: "owner_ok w" and t: "toplevel w s obj m = Inr w'"
  shows "owner_ok w'"
proof -
  from t obtain u w1 where m: "scene_make w s (toplevel_t obj m) = Inr (u, w1)"
    and w': "w' = w1\<lparr>scenes := (scenes w1)[s := (scenes w1 ! s)\<lparr>toplevels := toplevels (scenes w1 ! s) @ [u]\<rparr>]\<rparr>"
    by (auto simp: toplevel_Inr)
  have "owner_ok w1"
    using ok m by (rule scene_make_owner_ok)
  moreover from m have "s < length (scenes w1)"
    by (auto simp: scene_make_Inr)
  ultimately show ?thesis
    by (auto simp: owner_ok_iff w' nth_list_update)
qed

lemma builder_make:
  "sphere w s r = Inr (u, w') \<Longrightarrow> \<exists>s n. scene_make w s n = Inr (u, w')"
  "cube w s r = Inr (u, w') \<Longrightarrow> \<exists>s n. scene_make w s n = Inr (u, w')"
  "unite w a b = Inr (u, w') \<Longrightarrow> \<exists>s n. scene_make w s n = Inr (u, w')"
  "intersect w a b = Inr (u, w') \<Longrightarrow> \<exists>s n. scene_make w s n = Inr (u, w')"
  "subtract w a b = Inr (u, w') \<Longrightarrow> \<exists>s n. scene_make w s n = Inr (u, w')"
  "transform w a M = Inr (u, w') \<Longrightarrow> \<exists>s n. scene_make w s n = Inr (u, w')"
  unfolding sphere_def cube_def unite_def intersect_def subtract_def binary_op_Inr transform_Inr
  by blast+

lemma map_sum_snd_Inr: "map_sum id snd r = Inr w' \<longleftrightarrow> (\<exists>u. r = Inr (u, w'))"
  by (cases r) auto

lemma exec_cases:
  assumes "exec w c = Inr w'"
  shows "(c = NewScene \<and> w' = snd (new_scene w)) \<or>
         (\<exists>s obj m. c = Toplevel s obj m \<and> toplevel w s obj m = Inr w') \<or>
         ((\<forall>s obj m. c \<noteq> Toplevel s obj m) \<and> (\<exists>s n u. scene_make w s n = Inr (u, w')))"
proof (cases c)
  case NewScene
  with assms show ?thesis by auto
next
  case (Sphere s r)
  with assms show ?thesis using builder_make(1) [of w s r _ w']
    by (simp add: map_sum_snd_Inr) blast
next
  case (Cube s r)
  with assms show ?thesis using builder_make(2) [of w s r _ w']
    by (simp add: map_sum_snd_Inr) blast
next
  case (Toplevel s obj m)
  with assms show ?thesis by auto
next
  case (Unite l r)
  with assms show ?thesis using builder_make(3) [of w l r _ w']
    by (simp add: map_sum_snd_Inr) blast
next
  case (Intersect l r)
  with assms show ?thesis using builder_make(4) [of w l r _ w']
    by (simp add: map_sum_snd_Inr) blast
next
  case (Subtract l r)
  with assms show ?thesis using builder_make(5) [of w l r _ w']
    by (simp add: map_sum_snd_Inr) blast
next
  case (Transform n M)
  with assms show ?thesis using builder_make(6) [of w n M _ w']
    by (simp add: map_sum_snd_Inr) blast
qed

lemma exec_owner_ok: "owner_ok w \<Longrightarrow> exec w c = Inr w' \<Longrightarrow> owner_ok w'"
  using exec_cases [of w c w'] new_scene_owner_ok [of w] toplevel_owner_ok scene_make_owner_ok
  by metis

lemma run_owner_ok: "owner_ok w \<Longrightarrow> run w cs = Inr w' \<Longrightarrow> owner_ok w'"
proof (induction cs arbitrary: w)
  case Nil
  then show ?case by simp
next
  case (Cons c cs)
  then show ?case
    by (cases "exec w c") (auto dest: exec_owner_ok)
qed

lemma empty_owner_ok: "owner_ok empty_world"
  by (simp add: owner_ok_def empty_world_def)

lemma exec_heap_grows:
  assumes "exec w c = Inr w'"
  shows "\<exists>xs. heap w' = heap w @ xs"
  using exec_cases [OF assms]
  by (auto simp: new_scene_def toplevel_Inr scene_make_Inr)

lemma run_heap_grows: "run w cs = Inr w' \<Longrightarrow> \<exists>xs. heap w' = heap w @ xs"
proof (induction cs arbitrary: w)
  case Nil
  then show ?case by simp
next
  case (Cons c cs)
  then obtain w1 where 1: "exec w c = Inr w1" and 2: "run w1 cs = Inr w'"
    by (cases "exec w c") auto
  from exec_heap_grows [OF 1] Cons.IH [OF 2] show ?case
    by auto
qed

lemma run_deref: "run w cs = Inr w' \<Longrightarrow> a < length (heap w) \<Longrightarrow> deref w' a = deref w a"
  using run_heap_grows [of w cs w'] by (auto simp: deref_def nth_append)

lemma demo_run: "run empty_world demo_calls = Inr demo_world"
  by (simp add: demo_calls_def empty_world_def demo_world_def new_scene_def sphere_def
      scene_make_def Let_def)



lemma binary_op_scene:
  assumes "binary_op mk w a b = Inr (u, w')"
  shows "map_option obj_scene (deref w' u) = map_option obj_scene (deref w a) \<and>
         map_option obj_scene (deref w' u) = map_option obj_scene (deref w b) \<and>
         deref w' u \<noteq> None"
proof -
  from assms have la: "a < length (heap w)" and lb: "b < length (heap w)"
    and eq: "obj_scene (heap w ! a) = obj_scene (heap w ! b)"
    and m: "scene_make w (obj_scene (heap w ! a)) (mk a b) = Inr (u, w')"
    by (auto simp: binary_op_Inr)
  have d: "deref w' u = Some \<lparr>obj_scene = obj_scene (heap w ! a), obj_node = mk a b\<rparr>"
    using m by (rule scene_make_deref)
  have "deref w a = Some (heap w ! a)" "deref w b = Some (heap w ! b)"
    using la lb by (simp_all add: deref_def)
  then show ?thesis
    by (simp add: d eq)
qed

lemma toplevel_registers:
  assumes "toplevel w s obj m = Inr w'"
  shows "\<exists>t. scene_iter w' s = Some (toplevels (scenes w ! s) @ [t]) \<and>
             deref w' t = Some \<lparr>obj_scene = s, obj_node = toplevel_t obj m\<rparr>"
  using assms
  by (auto simp: toplevel_Inr scene_make_Inr scene_iter_def deref_def)

lemma owner_ok_unique:
  assumes "owner_ok w" and "a < length (heap w)"
  shows "obj_scene (heap w ! a) < length (scenes w) \<and>
         a \<in> set (objects (scenes w ! obj_scene (heap w ! a))) \<and>
         (\<forall>s < length (scenes w). a \<in> set (objects (scenes w ! s)) \<longrightarrow> s = obj_scene (heap w ! a))"
proof -
  from assms have v: "obj_scene (heap w ! a) < length (scenes w)"
    by (simp add: owner_ok_iff)
  with assms show ?thesis
    by (simp add: owner_ok_mem)
qed

subsection \<open>Scene ownership\<close>

text \<open>
  Claim C10. A node that \<open>sphere\<close>, \<open>cube\<close> or \<open>toplevel\<close> of scene \<open>s\<close> makes
  records \<open>s\<close>; a node that \<open>unite\<close>, \<open>intersect\<close> or \<open>subtract\<close> returns records
  the scene that both operands record, and a node that \<open>transform\<close> returns the scene of
  its operand. Along every run of factory calls that starts in a world where each node
  is owned by the scene it records, no existing node changes, and in the world reached
  every node records an existing scene, is owned by that scene and by no other.
\<close>

theorem nodes_record_their_scene:
  "(sphere w s r = Inr (u, w') \<longrightarrow> map_option obj_scene (deref w' u) = Some s) \<and>
   (cube w s r = Inr (u, w') \<longrightarrow> map_option obj_scene (deref w' u) = Some s) \<and>
   (toplevel w s obj m = Inr w' \<longrightarrow>
      (\<exists>t. scene_iter w' s = Some (toplevels (scenes w ! s) @ [t]) \<and>
           deref w' t = Some \<lparr>obj_scene = s, obj_node = toplevel_t obj m\<rparr>)) \<and>
   (unite w a b = Inr (u, w') \<longrightarrow>
      map_option obj_scene (deref w' u) = map_option obj_scene (deref w a) \<and>
      map_option obj_scene (deref w' u) = map_option obj_scene (deref w b) \<and> deref w' u \<noteq> None) \<and>
   (intersect w a b = Inr (u, w') \<longrightarrow>
      map_option obj_scene (deref w' u) = map_option obj_scene (deref w a) \<and>
      map_option obj_scene (deref w' u) = map_option obj_scene (deref w b) \<and> deref w' u \<noteq> None) \<and>
   (subtract w a b = Inr (u, w') \<longrightarrow>
      map_option obj_scene (deref w' u) = map_option obj_scene (deref w a) \<and>
      map_option obj_scene (deref w' u) = map_option obj_scene (deref w b) \<and> deref w' u \<noteq> None) \<and>
   (transform w a M = Inr (u, w') \<longrightarrow>
      map_option obj_scene (deref w' u) = map_option obj_scene (deref w a) \<and> deref w' u \<noteq> None) \<and>
   (owner_ok w \<and> run w cs = Inr w' \<longrightarrow>
      owner_ok w' \<and>
      (\<forall>n < length (heap w). deref w' n = deref w n) \<and>
      (\<forall>n < length (heap w').
         obj_scene (heap w' ! n) < length (scenes w') \<and>
         n \<in> set (objects (scenes w' ! obj_scene (heap w' ! n))) \<and>
         (\<forall>t < length (scenes w'). n \<in> set (objects (scenes w' ! t)) \<longrightarrow> t = obj_scene (heap w' ! n))))"
proof (intro conjI impI)
  assume "sphere w s r = Inr (u, w')"
  then show "map_option obj_scene (deref w' u) = Some s"
    by (simp add: sphere_def scene_make_deref)
next
  assume "cube w s r = Inr (u, w')"
  then show "map_option obj_scene (deref w' u) = Some s"
    by (simp add: cube_def scene_make_deref)
next
  assume "toplevel w s obj m = Inr w'"
  then show "\<exists>t. scene_iter w' s = Some (toplevels (scenes w ! s) @ [t]) \<and>
           deref w' t = Some \<lparr>obj_scene = s, obj_node = toplevel_t obj m\<rparr>"
    by (rule toplevel_registers)
next
  assume t: "transform w a M = Inr (u, w')"
  then show "map_option obj_scene (deref w' u) = map_option obj_scene (deref w a)"
    using scene_make_deref [of w "obj_scene (heap w ! a)" "transform_t a M" u w']
    by (simp add: transform_Inr deref_def)
  from t show "deref w' u \<noteq> None"
    using scene_make_deref [of w "obj_scene (heap w ! a)" "transform_t a M" u w']
    by (simp add: transform_Inr)
next
  assume r: "owner_ok w \<and> run w cs = Inr w'"
  then show ok': "owner_ok w'"
    using run_owner_ok by blast
  from r show "\<forall>n < length (heap w). deref w' n = deref w n"
    using run_deref by blast
  from ok' show "\<forall>n < length (heap w').
         obj_scene (heap w' ! n) < length (scenes w') \<and>
         n \<in> set (objects (scenes w' ! obj_scene (heap w' ! n))) \<and>
         (\<forall>t < length (scenes w'). n \<in> set (objects (scenes w' ! t)) \<longrightarrow> t = obj_scene (heap w' ! n))"
    using owner_ok_unique by blast
qed (auto simp: unite_def intersect_def subtract_def dest: binary_op_scene)

theorem nodes_record_their_scene_witness:
  "owner_ok (empty_world :: nat world) \<and> run empty_world demo_calls = Inr demo_world \<and>
   owner_ok demo_world \<and>
   (\<exists>u w'. sphere demo_world 1 2 = Inr (u, w') \<and> map_option obj_scene (deref w' u) = Some 1) \<and>
   (\<exists>u w'. unite demo_world 1 2 = Inr (u, w') \<and> map_option obj_scene (deref w' u) = Some 0) \<and>
   (\<exists>u w'. transform demo_world 3 (glm_scale (1, 1, 1)) = Inr (u, w') \<and>
       map_option obj_scene (deref w' u) = Some 1)"
proof -
  obtain u1 w1 where 1: "sphere demo_world 1 2 = Inr (u1, w1)"
    by (simp add: sphere_def scene_make_def demo_world_def Let_def)
  obtain u2 w2 where 2: "unite demo_world 1 2 = Inr (u2, w2)"
    by (simp add: unite_def binary_op_def deref_def scene_make_def demo_world_def Let_def)
  obtain u3 w3 where 3: "transform demo_world 3 (glm_scale (1, 1, 1)) = Inr (u3, w3)"
    by (simp add: transform_def deref_def scene_make_def demo_world_def Let_def)
  have d: "map_option obj_scene (deref demo_world 1) = Some 0"
    "map_option obj_scene (deref demo_world 3) = Some 1"
    by (simp_all add: deref_def demo_world_def)
  from nodes_record_their_scene [where w = demo_world and s = 1 and r = 2 and u = u1 and w' = w1] 1
  have a: "map_option obj_scene (deref w1 u1) = Some 1" by blast
  from nodes_record_their_scene [where w = demo_world and a = 1 and b = 2 and u = u2 and w' = w2] 2 d
  have b: "map_option obj_scene (deref w2 u2) = Some 0" by metis
  from nodes_record_their_scene
    [where w = demo_world and a = 3 and M = "glm_scale (1, 1, 1)" and u = u3 and w' = w3] 3 d
  have c: "map_option obj_scene (deref w3 u3) = Some 1" by metis
  from nodes_record_their_scene [where w = empty_world and cs = demo_calls and w' = demo_world]
    empty_owner_ok demo_run
  have "owner_ok demo_world" by blast
  with a b c 1 2 3 empty_owner_ok demo_run show ?thesis
    by blast
qed



subsection \<open>Toplevel registration\<close>

lemma tops_ok_iff:
  "tops_ok w \<longleftrightarrow>
     (\<forall>s < length (scenes w). \<forall>t \<in> set (toplevels (scenes w ! s)). t < length (heap w))"
proof -
  have "tops_ok w \<longleftrightarrow>
      (\<forall>s < length (scenes w). list_all (\<lambda>t. t < length (heap w)) (toplevels (scenes w ! s)))"
    unfolding tops_ok_def by (rule list_all_length)
  then show ?thesis
    by (simp add: list_all_iff)
qed

lemma toplevel_entry_extend:
  "heap w' = heap w @ xs \<Longrightarrow> t < length (heap w) \<Longrightarrow> toplevel_entry w' t = toplevel_entry w t"
  by (simp add: toplevel_entry_def deref_def nth_append)

lemma map_toplevel_entry_extend:
  assumes "heap w' = heap w @ xs" and "\<forall>t \<in> set ts. t < length (heap w)"
  shows "map (toplevel_entry w') ts = map (toplevel_entry w) ts"
  using assms by (auto intro: toplevel_entry_extend)

lemma registered_not_toplevel:
  "\<forall>s' obj m. c \<noteq> Toplevel s' obj m \<Longrightarrow> registered s (c # cs) = registered s cs"
  by (cases c) auto

lemma registered_Cons: "registered s (c # cs) = registered s [c] @ registered s cs"
  by (cases c) auto

lemma exec_toplevels:
  assumes ok: "tops_ok w" and s: "s < length (scenes w)" and e: "exec w c = Inr w'"
  shows "tops_ok w' \<and> s < length (scenes w') \<and>
         map (toplevel_entry w') (toplevels (scenes w' ! s))
           = map (toplevel_entry w) (toplevels (scenes w ! s)) @ map Some (registered s [c])"
proof -
  have old: "\<forall>t \<in> set (toplevels (scenes w ! s)). t < length (heap w)"
    using ok s by (simp add: tops_ok_iff)
  from exec_cases [OF e] consider
      (new) "c = NewScene" "w' = snd (new_scene w)"
    | (top) s0 obj m where "c = Toplevel s0 obj m" "toplevel w s0 obj m = Inr w'"
    | (make) s0 n u where "\<forall>s obj m. c \<noteq> Toplevel s obj m" "scene_make w s0 n = Inr (u, w')"
    by blast
  then show ?thesis
  proof cases
    case new
    have "tops_ok w'"
      using ok by (auto simp: tops_ok_iff new new_scene_def nth_append less_Suc_eq)
    moreover have "toplevel_entry w' = toplevel_entry w"
      by (rule ext) (simp add: toplevel_entry_def deref_def new new_scene_def)
    ultimately show ?thesis
      using s by (simp add: new new_scene_def nth_append)
  next
    case top
    from top(2) have s0: "s0 < length (scenes w)"
      and h: "heap w' = heap w @ [\<lparr>obj_scene = s0, obj_node = toplevel_t obj m\<rparr>]"
      and len: "length (scenes w') = length (scenes w)"
      and tl: "\<And>t. t < length (scenes w) \<Longrightarrow> toplevels (scenes w' ! t)
          = toplevels (scenes w ! t) @ (if t = s0 then [length (heap w)] else [])"
      by (auto simp: toplevel_Inr scene_make_Inr nth_list_update)
    have "tops_ok w'"
      using ok by (auto simp: tops_ok_iff len tl h less_Suc_eq)
    moreover have "toplevel_entry w' (length (heap w)) = Some (obj, m)"
      by (simp add: toplevel_entry_def deref_def h)
    moreover have "map (toplevel_entry w') (toplevels (scenes w ! s))
        = map (toplevel_entry w) (toplevels (scenes w ! s))"
      using h old by (rule map_toplevel_entry_extend)
    ultimately show ?thesis
      using s by (simp add: len tl top(1))
  next
    case make
    from make(2) have h: "heap w' = heap w @ [\<lparr>obj_scene = s0, obj_node = n\<rparr>]"
      and len: "length (scenes w') = length (scenes w)"
      and tl: "\<And>t. t < length (scenes w) \<Longrightarrow> toplevels (scenes w' ! t) = toplevels (scenes w ! t)"
      by (auto simp: scene_make_Inr nth_list_update)
    have "tops_ok w'"
      using ok by (auto simp: tops_ok_iff len tl h less_Suc_eq)
    moreover have "map (toplevel_entry w') (toplevels (scenes w ! s))
        = map (toplevel_entry w) (toplevels (scenes w ! s))"
      using h old by (rule map_toplevel_entry_extend)
    moreover have "registered s [c] = []"
      using registered_not_toplevel [OF make(1), of s "[]"] by simp
    ultimately show ?thesis
      using s by (simp add: len tl)
  qed
qed

lemma run_toplevels:
  "tops_ok w \<Longrightarrow> s < length (scenes w) \<Longrightarrow> run w cs = Inr w' \<Longrightarrow>
   tops_ok w' \<and> s < length (scenes w') \<and>
   map (toplevel_entry w') (toplevels (scenes w' ! s))
     = map (toplevel_entry w) (toplevels (scenes w ! s)) @ map Some (registered s cs)"
proof (induction cs arbitrary: w)
  case Nil
  then show ?case by simp
next
  case (Cons c cs)
  then obtain w1 where 1: "exec w c = Inr w1" and 2: "run w1 cs = Inr w'"
    by (cases "exec w c") auto
  from exec_toplevels [OF Cons.prems(1,2) 1]
  have a: "tops_ok w1" "s < length (scenes w1)"
    "map (toplevel_entry w1) (toplevels (scenes w1 ! s))
       = map (toplevel_entry w) (toplevels (scenes w ! s)) @ map Some (registered s [c])"
    by simp_all
  from Cons.IH [OF a(1,2) 2] a(3) show ?case
    by (simp add: registered_Cons [of s c cs])
qed



subsection \<open>Evaluating distances on the examples\<close>

lemma distance_leaf:
  "deref w a = Some ob \<Longrightarrow> obj_node ob = sphere_t r \<Longrightarrow> distance w a p = Some (vec3_length p - r, w)"
  "deref w a = Some ob \<Longrightarrow> obj_node ob = cube_t side \<Longrightarrow> distance w a p = Some (cube_sdf side p, w)"
  by (subst distance.simps, simp)+

lemma distance_unary:
  "deref w a = Some ob \<Longrightarrow> obj_node ob = toplevel_t c m \<Longrightarrow> distance w a p = distance w c p"
  "deref w a = Some ob \<Longrightarrow> obj_node ob = transform_t c M \<Longrightarrow>
     distance w a p = distance w c (mat4_apply M p)"
  by (subst distance.simps, simp)+

lemma distance_binary:
  assumes "deref w a = Some ob" and "distance w l p = Some (dl, w)" and "distance w r p = Some (dr, w)"
  shows "obj_node ob = union_t l r \<Longrightarrow> distance w a p = Some (min dl dr, w)"
    and "obj_node ob = intersection_t l r \<Longrightarrow> distance w a p = Some (max dl dr, w)"
    and "obj_node ob = difference_t l r \<Longrightarrow> distance w a p = Some (max dl (- dr), w)"
  using assms by (subst distance.simps, simp)+

lemma demo2_deref:
  "deref demo_world2 0 = Some \<lparr>obj_scene = 0, obj_node = sphere_t 3\<rparr>"
  "deref demo_world2 1 = Some \<lparr>obj_scene = 0, obj_node = sphere_t 1\<rparr>"
  "deref demo_world2 5 = Some \<lparr>obj_scene = 0, obj_node = union_t 0 1\<rparr>"
  "deref demo_world2 8 = Some \<lparr>obj_scene = 0, obj_node = toplevel_t 5 8\<rparr>"
  by (simp_all add: deref_def demo_world2_def)

lemma demo2_distance: "distance demo_world2 8 (0, 0, 0) = Some (- 3, demo_world2)"
proof -
  have 0: "distance demo_world2 0 (0, 0, 0) = Some (- 3, demo_world2)"
    using distance_leaf(1) [OF demo2_deref(1), of 3 "(0, 0, 0)"] by simp
  have 1: "distance demo_world2 1 (0, 0, 0) = Some (- 1, demo_world2)"
    using distance_leaf(1) [OF demo2_deref(2), of 1 "(0, 0, 0)"] by simp
  have 5: "distance demo_world2 5 (0, 0, 0) = Some (- 3, demo_world2)"
    using distance_binary(1) [OF demo2_deref(3) 0 1] by simp
  show ?thesis
    using distance_unary(1) [OF demo2_deref(4), of 5 8 "(0, 0, 0)"] 5 by simp
qed


lemma demo_run2: "run demo_world demo_calls2 = Inr demo_world2"
  by (simp add: demo_calls2_def demo_world_def demo_world2_def toplevel_def sphere_def unite_def
      binary_op_def deref_def scene_make_def Let_def)


lemma stream_toplevels_concat:
  "stream_toplevels d ts out = out @ concat (map (\<lambda>t. d t @ [CHR 0x0A]) ts)"
  by (induction ts arbitrary: out) simp_all

subsection \<open>Iteration and size of a scene\<close>

text \<open>
  Claim C7. Along every run of calls that succeeds, from a world whose registered
  toplevel pointers address objects: iterating scene \<open>s\<close> afterwards yields the entries
  it yielded before, followed by one entry for each \<open>toplevel\<close> call on \<open>s\<close> in the run,
  with the root and the material of that call, in call order, whatever other calls the
  run makes in between; and \<open>size()\<close> is the number of entries before plus the number of
  those calls.
\<close>

theorem toplevels_in_registration_order:
  assumes "tops_ok w" and "s < length (scenes w)" and "run w cs = Inr w'"
  shows "\<exists>ts. scene_iter w' s = Some ts \<and>
           map (toplevel_entry w') ts
             = map (toplevel_entry w) (toplevels (scenes w ! s)) @ map Some (registered s cs) \<and>
           scene_size w' s = Some (length (toplevels (scenes w ! s)) + length (registered s cs))"
proof -
  from run_toplevels [OF assms]
  have a: "s < length (scenes w')"
    and b: "map (toplevel_entry w') (toplevels (scenes w' ! s))
     = map (toplevel_entry w) (toplevels (scenes w ! s)) @ map Some (registered s cs)"
    by simp_all
  from b have "length (toplevels (scenes w' ! s))
      = length (toplevels (scenes w ! s)) + length (registered s cs)"
    by (metis length_append length_map)
  with a b show ?thesis
    by (simp add: scene_iter_def scene_size_def)
qed


theorem toplevels_in_registration_order_witness:
  "tops_ok demo_world \<and> (0::nat) < length (scenes demo_world) \<and>
   run demo_world demo_calls2 = Inr demo_world2 \<and>
   scene_iter demo_world2 0 = Some [4, 8] \<and>
   map (toplevel_entry demo_world2) [4, 8] = [Some (0, 7), Some (5, 8)] \<and>
   scene_size demo_world2 0 = Some 2 \<and>
   length (objects (scenes demo_world2 ! 0)) = 6"
proof -
  have 1: "tops_ok demo_world"
    by (simp add: tops_ok_def demo_world_def)
  have 2: "(0::nat) < length (scenes demo_world)"
    by (simp add: demo_world_def)
  have 3: "scene_iter demo_world2 0 = Some [4, 8]"
    by (simp add: scene_iter_def demo_world2_def)
  have 4: "toplevels (scenes demo_world ! 0) = []" "registered 0 demo_calls2 = [(0, 7), (5, 8)]"
    by (simp_all add: demo_world_def demo_calls2_def)
  have 5: "length (objects (scenes demo_world2 ! 0)) = 6"
    by (simp add: demo_world2_def)
  from toplevels_in_registration_order [OF 1 2 demo_run2] 1 2 3 5 demo_run2 show ?thesis
    by (simp add: 4)
qed

subsection \<open>Streaming a scene\<close>

text \<open>
  Claim C8. For every scene \<open>s\<close> that exists and whatever the stream holds already:
  \<open>operator<<\<close> appends to the stream, for each toplevel in the order the iteration
  yields them, the dump of that toplevel followed by one newline, and nothing else. It
  takes the scene as \<open>const\<close> and returns the stream only. For a scene that had no
  toplevel before a run, these are the toplevels the run registered, in call order.
\<close>

theorem stream_scene_concat:
  "(s < length (scenes w) \<longrightarrow>
      (\<exists>ts. scene_iter w s = Some ts \<and>
         stream_scene dump w s out = Some (out @ concat (map (\<lambda>t. dump w t @ [CHR 0x0A]) ts)))) \<and>
   (tops_ok w0 \<and> s < length (scenes w0) \<and> toplevels (scenes w0 ! s) = [] \<and> run w0 cs = Inr w \<longrightarrow>
      (\<exists>ts. map (toplevel_entry w) ts = map Some (registered s cs) \<and>
         stream_scene dump w s out = Some (out @ concat (map (\<lambda>t. dump w t @ [CHR 0x0A]) ts))))"
proof (intro conjI impI)
  assume "s < length (scenes w)"
  then show "\<exists>ts. scene_iter w s = Some ts \<and>
      stream_scene dump w s out = Some (out @ concat (map (\<lambda>t. dump w t @ [CHR 0x0A]) ts))"
    by (simp add: scene_iter_def stream_scene_def stream_toplevels_concat)
next
  assume a: "tops_ok w0 \<and> s < length (scenes w0) \<and> toplevels (scenes w0 ! s) = [] \<and> run w0 cs = Inr w"
  then have "s < length (scenes w)"
    and "map (toplevel_entry w) (toplevels (scenes w ! s)) = map Some (registered s cs)"
    using run_toplevels [of w0 s cs w] by simp_all
  then show "\<exists>ts. map (toplevel_entry w) ts = map Some (registered s cs) \<and>
      stream_scene dump w s out = Some (out @ concat (map (\<lambda>t. dump w t @ [CHR 0x0A]) ts))"
    by (auto simp: stream_scene_def stream_toplevels_concat)
qed

theorem stream_scene_concat_witness:
  "(0::nat) < length (scenes demo_world2) \<and>
   tops_ok demo_world \<and> (0::nat) < length (scenes demo_world) \<and>
   toplevels (scenes demo_world ! 0) = [] \<and> run demo_world demo_calls2 = Inr demo_world2 \<and>
   scene_iter demo_world2 0 = Some [4, 8] \<and>
   map (toplevel_entry demo_world2) [4, 8] = map Some (registered 0 demo_calls2) \<and>
   stream_scene demo_dump demo_world2 0 ''scene:''
     = Some (''scene:'' @ ''toplevel '' @ [CHR 0x0A] @ ''toplevel *****'' @ [CHR 0x0A])"
proof -
  have 1: "(0::nat) < length (scenes demo_world2)"
    by (simp add: demo_world2_def)
  have 2: "tops_ok demo_world" "(0::nat) < length (scenes demo_world)"
    "toplevels (scenes demo_world ! 0) = []"
    by (simp_all add: tops_ok_def demo_world_def)
  have 3: "scene_iter demo_world2 0 = Some [4, 8]"
    by (simp add: scene_iter_def demo_world2_def)
  have 4: "map (toplevel_entry demo_world2) [4, 8] = map Some (registered 0 demo_calls2)"
    by (simp add: toplevel_entry_def deref_def demo_world2_def demo_calls2_def)
  from stream_scene_concat [of 0 demo_world2 demo_dump "''scene:''" demo_world demo_calls2]
    1 2 3 4 demo_run2
  show ?thesis
    by (simp add: demo_dump_def deref_def demo_world2_def eval_nat_numeral)
qed

subsection \<open>Distance queries have no effect\<close>

text \<open>
  Claim C9. A distance query that returns hands back the world it was given, unchanged
  (the heap with every node's fields, and every scene's owned nodes and toplevels), and
  the same query in that world returns the same number again; on a well-formed heap
  every query on an allocated node returns.
\<close>

theorem distance_side_effect_free:
  "(distance w n p = Some (d, w') \<longrightarrow> w' = w \<and> distance w' n p = Some (d, w')) \<and>
   (heap_ok w \<and> n < length (heap w) \<longrightarrow> (\<exists>d. distance w n p = Some (d, w)))"
  using distance_pure [of w n p "(d, w')"] distance_total [of w n p] by auto

theorem distance_side_effect_free_witness:
  "heap_ok demo_world2 \<and> (8::nat) < length (heap demo_world2) \<and>
   distance demo_world2 8 (0, 0, 0) = Some (- 3, demo_world2)"
proof -
  have 1: "heap_ok demo_world2"
    by (simp add: heap_ok_def demo_world2_def)
  have 2: "(8::nat) < length (heap demo_world2)"
    by (simp add: demo_world2_def)
  from distance_side_effect_free [of demo_world2 8 "(0, 0, 0)"] 1 2 demo2_distance show ?thesis
    by simp
qed



subsection \<open>The variadic builders\<close>

lemma binary_op_full:
  assumes ok: "heap_ok w"
    and la: "a < length (heap w)" and lb: "b < length (heap w)"
    and sa: "obj_scene (heap w ! a) = s" and sb: "obj_scene (heap w ! b) = s"
    and n: "mk = union_t \<and> f = min \<or> mk = intersection_t \<and> f = max
            \<or> mk = difference_t \<and> f = (\<lambda>x y. max x (- y))"
  shows "\<exists>w' da db. binary_op mk w a b = Inr (length (heap w), w') \<and> heap_ok w' \<and>
           heap w' = heap w @ [\<lparr>obj_scene = s, obj_node = mk a b\<rparr>] \<and>
           distance_of w a p = Some da \<and> distance_of w b p = Some db \<and>
           distance_of w' (length (heap w)) p = Some (f da db)"
proof -
  from ok la sa have "s < length (scenes w)"
    by (auto simp: heap_ok_iff)
  then obtain u w' where m: "scene_make w s (mk a b) = Inr (u, w')"
    by (simp add: scene_make_Inr)
  then have u: "u = length (heap w)"
    and h: "heap w' = heap w @ [\<lparr>obj_scene = s, obj_node = mk a b\<rparr>]"
    by (auto simp: scene_make_Inr)
  have r: "binary_op mk w a b = Inr (length (heap w), w')"
    using m u by (simp add: binary_op_Inr la lb sa sb)
  from n have ch: "children (mk a b) = [a, b]"
    by auto
  have ok': "heap_ok w'"
    using ok m by (rule scene_make_heap_ok) (simp add: ch la lb)
  from n have n': "mk a b = union_t a b \<and> f = min \<or> mk a b = intersection_t a b \<and> f = max
            \<or> mk a b = difference_t a b \<and> f = (\<lambda>x y. max x (- y))"
    by auto
  from binary_node_distance [OF ok m la lb n', of p] r ok' h u show ?thesis
    by auto
qed

lemma unite_v_distance:
  assumes ok: "heap_ok w"
  shows "\<forall>x \<in> set (a # b # rest). x < length (heap w) \<and> obj_scene (heap w ! x) = s \<Longrightarrow>
    \<exists>u w' xs ds. unite_v w a b rest = Inr (u, w') \<and> heap_ok w' \<and> heap w' = heap w @ xs \<and>
       u < length (heap w') \<and> obj_scene (heap w' ! u) = s \<and>
       map (\<lambda>x. distance_of w x p) (a # b # rest) = map Some ds \<and>
       distance_of w' u p = Some (Min (set ds))"
proof (induction rest arbitrary: a b)
  case Nil
  then have la: "a < length (heap w)" and lb: "b < length (heap w)"
    and sa: "obj_scene (heap w ! a) = s" and sb: "obj_scene (heap w ! b) = s"
    by simp_all
  from binary_op_full [OF ok la lb sa sb, of union_t min p]
  obtain w' da db where r: "unite w a b = Inr (length (heap w), w')" "heap_ok w'"
      "heap w' = heap w @ [\<lparr>obj_scene = s, obj_node = union_t a b\<rparr>]"
      "distance_of w a p = Some da" "distance_of w b p = Some db"
      "distance_of w' (length (heap w)) p = Some (min da db)"
    by (auto simp: unite_def)
  have "map (\<lambda>x. distance_of w x p) [a, b] = map Some [da, db]"
    using r by simp
  moreover have "Min (set [da, db]) = min da db"
    by simp
  ultimately show ?case
    using r by (metis (no_types, lifting) length_append_singleton lessI nth_append_length
        object.select_convs(1) unite_v.simps(1))
next
  case (Cons c rest)
  then have la: "a < length (heap w)" and sa: "obj_scene (heap w ! a) = s"
    and tl: "\<forall>x \<in> set (b # c # rest). x < length (heap w) \<and> obj_scene (heap w ! x) = s"
    by simp_all
  from Cons.IH [OF tl] obtain r w1 xs ds1 where
    i: "unite_v w b c rest = Inr (r, w1)" "heap_ok w1" "heap w1 = heap w @ xs"
      "r < length (heap w1)" "obj_scene (heap w1 ! r) = s"
      "map (\<lambda>x. distance_of w x p) (b # c # rest) = map Some ds1"
      "distance_of w1 r p = Some (Min (set ds1))"
    by blast
  have la1: "a < length (heap w1)" and sa1: "obj_scene (heap w1 ! a) = s"
    using la sa i(3) by (simp_all add: nth_append)
  from binary_op_full [OF i(2) la1 i(4) sa1 i(5), of union_t min p]
  obtain w' da' dr where r: "unite w1 a r = Inr (length (heap w1), w')" "heap_ok w'"
      "heap w' = heap w1 @ [\<lparr>obj_scene = s, obj_node = union_t a r\<rparr>]"
      "distance_of w1 a p = Some da'" "distance_of w1 r p = Some dr"
      "distance_of w' (length (heap w1)) p = Some (min da' dr)"
    by (auto simp: unite_def)
  from distance_of_extend [OF ok i(3) la, of p] r(4)
  have da: "distance_of w a p = Some da'"
    by auto
  from r(5) i(7) have dr: "dr = Min (set ds1)"
    by simp
  from i(6) have ne: "ds1 \<noteq> []"
    by auto
  have m: "Min (set (da' # ds1)) = min da' (Min (set ds1))"
    using ne by (simp add: Min_insert)
  have 1: "unite_v w a b (c # rest) = Inr (length (heap w1), w')"
    using i(1) r(1) by simp
  have 2: "heap w' = heap w @ (xs @ [\<lparr>obj_scene = s, obj_node = union_t a r\<rparr>])"
    using r(3) i(3) by simp
  have 3: "length (heap w1) < length (heap w')" "obj_scene (heap w' ! length (heap w1)) = s"
    using r(3) by simp_all
  have 4: "map (\<lambda>x. distance_of w x p) (a # b # c # rest) = map Some (da' # ds1)"
    using da i(6) by simp
  have 5: "distance_of w' (length (heap w1)) p = Some (Min (set (da' # ds1)))"
    using r(6) dr m by simp
  from 1 r(2) 2 3 4 5 show ?case
    by blast
qed


lemma demo_distance_2: "distance_of demo_world 2 (0, 0, 0) = Some (- 2)"
  by (simp add: distance_of_def distance.simps deref_def demo_world_def)

lemma nested_binary:
  assumes ok: "heap_ok w"
    and v: "\<forall>x \<in> set [a, b, c]. x < length (heap w) \<and> obj_scene (heap w ! x) = s"
    and n1: "mk1 = union_t \<and> f1 = min \<or> mk1 = intersection_t \<and> f1 = max
            \<or> mk1 = difference_t \<and> f1 = (\<lambda>x y. max x (- y))"
    and n2: "mk2 = union_t \<and> f2 = min \<or> mk2 = intersection_t \<and> f2 = max
            \<or> mk2 = difference_t \<and> f2 = (\<lambda>x y. max x (- y))"
  shows "\<exists>da db dc. distance_of w a p = Some da \<and> distance_of w b p = Some db \<and>
           distance_of w c p = Some dc \<and>
           result_distance
             (case binary_op mk1 w b c of Inl e \<Rightarrow> Inl e | Inr (r, w1) \<Rightarrow> binary_op mk2 w1 a r) p
           = Some (f2 da (f1 db dc))"
proof -
  from v have la: "a < length (heap w)" and lb: "b < length (heap w)" and lc: "c < length (heap w)"
    and sa: "obj_scene (heap w ! a) = s" and sb: "obj_scene (heap w ! b) = s"
    and sc: "obj_scene (heap w ! c) = s"
    by simp_all
  from binary_op_full [OF ok lb lc sb sc n1, of p]
  obtain w1 db dc where 1: "binary_op mk1 w b c = Inr (length (heap w), w1)" "heap_ok w1"
      "heap w1 = heap w @ [\<lparr>obj_scene = s, obj_node = mk1 b c\<rparr>]"
      "distance_of w b p = Some db" "distance_of w c p = Some dc"
      "distance_of w1 (length (heap w)) p = Some (f1 db dc)"
    by blast
  have la1: "a < length (heap w1)" and lr: "length (heap w) < length (heap w1)"
    and sa1: "obj_scene (heap w1 ! a) = s" and sr: "obj_scene (heap w1 ! length (heap w)) = s"
    using la sa 1(3) by (simp_all add: nth_append)
  from binary_op_full [OF 1(2) la1 lr sa1 sr n2, of p]
  obtain w2 da dr where 2: "binary_op mk2 w1 a (length (heap w)) = Inr (length (heap w1), w2)"
      "distance_of w1 a p = Some da" "distance_of w1 (length (heap w)) p = Some dr"
      "distance_of w2 (length (heap w1)) p = Some (f2 da dr)"
    by blast
  from distance_of_extend [OF ok 1(3) la, of p] 2(2) have "distance_of w a p = Some da"
    by auto
  moreover from 1(6) 2(3) have "dr = f1 db dc"
    by simp
  ultimately show ?thesis
    using 1 2 by (simp add: result_distance_def)
qed

lemma intersect_v_unfold:
  "intersect_v w a b (c # rest) =
     (case unite_v w b c rest of Inl e \<Rightarrow> Inl e | Inr (r, w') \<Rightarrow> intersect w' a r)"
  by (simp add: intersect_v_def)

text \<open>
  Claim C4, as the specification states it, fails: on the spheres of radius 3, 1 and 2
  of the example world (addresses 0, 1, 2), \<open>subtract(a, b, c)\<close> and
  \<open>intersect(a, b, c)\<close> first allocate the union of \<open>b\<close> and \<open>c\<close>, where the
  right fold of the combinator itself allocates their difference or intersection. At
  the origin \<open>subtract(a, b, c)\<close> has distance 2 where the right fold
  \<open>subtract(a, subtract(b, c))\<close> has distance -2, and \<open>intersect(a, b, c)\<close> has
  distance -2 where the right fold \<open>intersect(a, intersect(b, c))\<close>, the maximum of
  the three distances, has -1.
\<close>

theorem variadic_fold_counterexample:
  "result_nodes (subtract_v demo_world 0 1 [2]) 4 = [union_t 1 2, difference_t 0 4] \<and>
   result_nodes (subtract_rfold_spec demo_world 0 1 [2]) 4 = [difference_t 1 2, difference_t 0 4] \<and>
   result_nodes (intersect_v demo_world 0 1 [2]) 4 = [union_t 1 2, intersection_t 0 4] \<and>
   result_nodes (intersect_rfold_spec demo_world 0 1 [2]) 4 = [intersection_t 1 2, intersection_t 0 4] \<and>
   result_distance (subtract_v demo_world 0 1 [2]) (0, 0, 0) = Some 2 \<and>
   result_distance (subtract_rfold_spec demo_world 0 1 [2]) (0, 0, 0) = Some (- 2) \<and>
   result_distance (intersect_v demo_world 0 1 [2]) (0, 0, 0) = Some (- 2) \<and>
   result_distance (intersect_rfold_spec demo_world 0 1 [2]) (0, 0, 0) = Some (- 1) \<and>
   subtract_v demo_world 0 1 [2] \<noteq> subtract_rfold_spec demo_world 0 1 [2] \<and>
   intersect_v demo_world 0 1 [2] \<noteq> intersect_rfold_spec demo_world 0 1 [2]"
proof -
  have v: "\<forall>x \<in> set [0, 1, 2]. x < length (heap demo_world) \<and> obj_scene (heap demo_world ! x) = 0"
    by (simp add: demo_world_def)
  note d = demo_distance_0 demo_distance_1 demo_distance_2
  have 1: "result_distance (subtract_v demo_world 0 1 [2]) (0, 0, 0) = Some 2"
    using nested_binary [OF demo_heap_ok v, of union_t min difference_t "\<lambda>x y. max x (- y)" "(0, 0, 0)"]
    unfolding subtract_v_def list.case unite_v.simps unite_def subtract_def by (simp add: d)
  have 2: "result_distance (subtract_rfold_spec demo_world 0 1 [2]) (0, 0, 0) = Some (- 2)"
    using nested_binary [OF demo_heap_ok v, of difference_t "\<lambda>x y. max x (- y)"
        difference_t "\<lambda>x y. max x (- y)" "(0, 0, 0)"]
    unfolding subtract_rfold_spec.simps subtract_def by (simp add: d)
  have 3: "result_distance (intersect_v demo_world 0 1 [2]) (0, 0, 0) = Some (- 2)"
    using nested_binary [OF demo_heap_ok v, of union_t min intersection_t max "(0, 0, 0)"]
    unfolding intersect_v_def list.case unite_v.simps unite_def intersect_def by (simp add: d)
  have 4: "result_distance (intersect_rfold_spec demo_world 0 1 [2]) (0, 0, 0) = Some (- 1)"
    using nested_binary [OF demo_heap_ok v, of intersection_t max intersection_t max "(0, 0, 0)"]
    unfolding intersect_rfold_spec.simps intersect_def by (simp add: d)
  from 1 2 have 5: "subtract_v demo_world 0 1 [2] \<noteq> subtract_rfold_spec demo_world 0 1 [2]"
    by auto
  from 3 4 have 6: "intersect_v demo_world 0 1 [2] \<noteq> intersect_rfold_spec demo_world 0 1 [2]"
    by auto
  note defs = subtract_v_def intersect_v_def unite_def intersect_def subtract_def binary_op_def
    deref_def scene_make_def Let_def result_nodes_def demo_world_def
  have 7: "result_nodes (subtract_v demo_world 0 1 [2]) 4 = [union_t 1 2, difference_t 0 4]"
    by (simp add: defs)
  have 8: "result_nodes (subtract_rfold_spec demo_world 0 1 [2]) 4 = [difference_t 1 2, difference_t 0 4]"
    by (simp add: defs)
  have 9: "result_nodes (intersect_v demo_world 0 1 [2]) 4 = [union_t 1 2, intersection_t 0 4]"
    by (simp add: defs)
  have 10: "result_nodes (intersect_rfold_spec demo_world 0 1 [2]) 4 = [intersection_t 1 2, intersection_t 0 4]"
    by (simp add: defs)
  from 1 2 3 4 5 6 7 8 9 10 show ?thesis
    by blast
qed


text \<open>
  Claim C4, amended. For three or more nodes \<open>a, b, c, ...\<close> of one scene in a
  well-formed heap: the variadic \<open>unite\<close> is the pairwise \<open>unite\<close> of \<open>a\<close> with
  the variadic \<open>unite\<close> of the rest, and the distance of its result is the least of the
  operands' distances; the variadic \<open>subtract\<close> is the pairwise \<open>subtract\<close> of \<open>a\<close>
  with the \<open>unite\<close> of the rest, and the distance of its result is the maximum of the
  distance of \<open>a\<close> and the negated least distance of the rest.
\<close>

theorem variadic_unite_subtract:
  assumes "heap_ok w"
    and "\<forall>x \<in> set (a # b # c # rest). x < length (heap w) \<and> obj_scene (heap w ! x) = s"
  shows "(\<exists>r w1 u w' ds. unite_v w b c rest = Inr (r, w1) \<and> unite w1 a r = Inr (u, w') \<and>
            unite_v w a b (c # rest) = Inr (u, w') \<and>
            map (\<lambda>x. distance_of w x p) (a # b # c # rest) = map Some ds \<and>
            distance_of w' u p = Some (Min (set ds))) \<and>
         (\<exists>r w1 u w' da ds. unite_v w b c rest = Inr (r, w1) \<and> subtract w1 a r = Inr (u, w') \<and>
            subtract_v w a b (c # rest) = Inr (u, w') \<and>
            distance_of w a p = Some da \<and>
            map (\<lambda>x. distance_of w x p) (b # c # rest) = map Some ds \<and>
            distance_of w' u p = Some (max da (- Min (set ds))))"
proof -
  from assms(2) have la: "a < length (heap w)" and sa: "obj_scene (heap w ! a) = s"
    and tl: "\<forall>x \<in> set (b # c # rest). x < length (heap w) \<and> obj_scene (heap w ! x) = s"
    by simp_all
  from unite_v_distance [OF assms(1) tl, of p] obtain r w1 xs ds1 where
    i: "unite_v w b c rest = Inr (r, w1)" "heap_ok w1" "heap w1 = heap w @ xs"
      "r < length (heap w1)" "obj_scene (heap w1 ! r) = s"
      "map (\<lambda>x. distance_of w x p) (b # c # rest) = map Some ds1"
      "distance_of w1 r p = Some (Min (set ds1))"
    by blast
  have la1: "a < length (heap w1)" and sa1: "obj_scene (heap w1 ! a) = s"
    using la sa i(3) by (simp_all add: nth_append)
  obtain da where da: "distance_of w a p = Some da" "distance_of w1 a p = Some da"
    using distance_of_extend [OF assms(1) i(3) la, of p] by blast
  from i(6) have ne: "ds1 \<noteq> []"
    by auto
  have m: "Min (set (da # ds1)) = min da (Min (set ds1))"
    using ne by (simp add: Min_insert)
  have "\<exists>u w'. unite w1 a r = Inr (u, w') \<and> unite_v w a b (c # rest) = Inr (u, w') \<and>
      distance_of w' u p = Some (Min (set (da # ds1)))"
    using binary_op_full [OF i(2) la1 i(4) sa1 i(5), of union_t min p] i(1) i(7) da(2) m
    by (auto simp: unite_def)
  moreover have "map (\<lambda>x. distance_of w x p) (a # b # c # rest) = map Some (da # ds1)"
    using da(1) i(6) by simp
  moreover have "\<exists>u w'. subtract w1 a r = Inr (u, w') \<and> subtract_v w a b (c # rest) = Inr (u, w') \<and>
      distance_of w' u p = Some (max da (- Min (set ds1)))"
    using binary_op_full [OF i(2) la1 i(4) sa1 i(5), of difference_t "\<lambda>x y. max x (- y)" p]
      i(1) i(7) da(2)
    by (auto simp: subtract_def subtract_v_def)
  ultimately show ?thesis
    using i(1) i(6) da(1) by blast
qed

theorem variadic_unite_subtract_witness:
  "heap_ok demo_world \<and>
   (\<exists>u w'. unite_v demo_world 0 1 [2] = Inr (u, w') \<and> distance_of w' u (0, 0, 0) = Some (- 3)) \<and>
   (\<exists>u w'. subtract_v demo_world 0 1 [2] = Inr (u, w') \<and> distance_of w' u (0, 0, 0) = Some 2)"
proof -
  have h: "\<forall>x \<in> set (0 # 1 # 2 # []). x < length (heap demo_world) \<and> obj_scene (heap demo_world ! x) = 0"
    by (simp add: demo_world_def)
  from variadic_unite_subtract [OF demo_heap_ok h, of "(0, 0, 0)"] demo_heap_ok show ?thesis
    by (auto simp: demo_distance_0 demo_distance_1 demo_distance_2)
qed




end
